theory Spec2Isabelle
  imports Main "HOL-Library.Word"
begin

unbundle bit_operations_syntax

section \<open>The C library functions used at startup\<close>

text \<open>
  \<open>wWinMain\<close> configures tracing with \<open>envIntOr("TRACE", 1)\<close>, which calls
  \<open>std::getenv\<close> and \<open>std::atoi\<close>. The process environment is a map from names
  to values; \<open>getenv\<close> is its lookup.

  \<open>atoi\<close> is the C library's: it skips leading white space, reads an optional sign, then
  the longest run of decimal digits, and stops at the first other character; no digits give 0.
  A value that does not fit an \<open>int\<close> is undefined behaviour in ISO C; the Windows C runtime
  returns \<open>INT_MAX\<close> or \<open>INT_MIN\<close> there, which is what \<open>atoi\<close> below does.
\<close>

type_synonym environ = "string \<rightharpoonup> string"

definition getenv :: "environ \<Rightarrow> string \<Rightarrow> string option" where
  "getenv env name = env name"

definition isspace :: "char \<Rightarrow> bool" where
  "isspace c = (let k = (of_char c :: nat) in k = 32 \<or> (9 \<le> k \<and> k \<le> 13))"

definition isdigit :: "char \<Rightarrow> bool" where
  "isdigit c = (let k = (of_char c :: nat) in 48 \<le> k \<and> k \<le> 57)"

definition digit_value :: "char \<Rightarrow> int" where
  "digit_value c = int (of_char c) - 48"

fun read_digits :: "int \<Rightarrow> string \<Rightarrow> int" where
  "read_digits acc [] = acc"
| "read_digits acc (c # cs) =
     (if isdigit c then read_digits (10 * acc + digit_value c) cs else acc)"

definition read_signed :: "string \<Rightarrow> int" where
  "read_signed s =
     (case s of
        [] \<Rightarrow> 0
      | c # cs \<Rightarrow>
          if c = CHR ''-'' then - read_digits 0 cs
          else if c = CHR ''+'' then read_digits 0 cs
          else read_digits 0 (c # cs))"

definition INT_MAX :: int where
  "INT_MAX = 2147483647"

definition INT_MIN :: int where
  "INT_MIN = - 2147483648"

definition atoi :: "string \<Rightarrow> int" where
  "atoi s =
     (let v = read_signed (dropWhile isspace s)
      in if v < INT_MIN then INT_MIN else if INT_MAX < v then INT_MAX else v)"

text \<open>
  \<^verbatim>\<open>
  static int envIntOr(char const *envvar, int defaultValue)
  {
    if (char const *value = std::getenv(envvar)) {
      return std::atoi(value);
    }
    else {
      return defaultValue;
    }
  }
  \<close>
\<close>

definition envIntOr :: "environ \<Rightarrow> string \<Rightarrow> int \<Rightarrow> int" where
  "envIntOr env envvar defaultValue =
     (case getenv env envvar of
        Some v \<Rightarrow> atoi v
      | None \<Rightarrow> defaultValue)"


section \<open>Values of the Windows API\<close>

text \<open>
  Handles (\<open>HWND\<close>, \<open>HDC\<close>, \<open>HBITMAP\<close>, \<open>HICON\<close>, \<open>HINSTANCE\<close>) are pointer
  values, \<open>NULL\<close> being 0. \<open>WPARAM\<close> and \<open>LPARAM\<close> are 64 bits wide. A
  \<open>LONG\<close>, the type of the coordinates of a \<open>RECT\<close>, is 32 bits wide: its arithmetic
  wraps around, and \<open>sint\<close> reads it as the signed number it stands for. \<open>int\<close> and
  \<open>BOOL\<close> values passed to or returned by a call are integers. The numeric constants are
  those of \<open>windows.h\<close>.
\<close>

type_synonym HANDLE = int
type_synonym WPARAM = "64 word"
type_synonym LPARAM = "64 word"
type_synonym UINT = nat
type_synonym LRESULT = int
type_synonym LONG = "32 word"

definition NULL :: HANDLE where "NULL = 0"

definition WM_CREATE :: UINT where "WM_CREATE = 1"
definition WM_DESTROY :: UINT where "WM_DESTROY = 2"
definition WM_PAINT :: UINT where "WM_PAINT = 15"
definition WM_CLOSE :: UINT where "WM_CLOSE = 16"
definition WM_QUIT :: UINT where "WM_QUIT = 18"
definition WM_SETICON :: UINT where "WM_SETICON = 128"
definition WM_KEYDOWN :: UINT where "WM_KEYDOWN = 256"
definition WM_HOTKEY :: UINT where "WM_HOTKEY = 786"

definition VK_UP :: nat where "VK_UP = 38"
definition VK_F5 :: nat where "VK_F5 = 116"
definition KEY_Q :: WPARAM where "KEY_Q = 81"

definition ICON_SMALL :: WPARAM where "ICON_SMALL = 0"
definition ICON_BIG :: WPARAM where "ICON_BIG = 1"
definition COLOR_WINDOW :: int where "COLOR_WINDOW = 5"
definition SYSTEM_FONT :: int where "SYSTEM_FONT = 13"
definition HALFTONE :: int where "HALFTONE = 4"
definition SM_CXSCREEN :: int where "SM_CXSCREEN = 0"
definition SM_CYSCREEN :: int where "SM_CYSCREEN = 1"
definition SRCCOPY :: nat where "SRCCOPY = 13369376"
definition WS_OVERLAPPEDWINDOW :: nat where "WS_OVERLAPPEDWINDOW = 13565952"

definition LOWORD :: "LPARAM \<Rightarrow> WPARAM" where
  "LOWORD l = l AND 65535"

definition HIWORD :: "LPARAM \<Rightarrow> WPARAM" where
  "HIWORD l = drop_bit 16 l AND 65535"

record RECT =
  left :: LONG
  top :: LONG
  right :: LONG
  bottom :: LONG

record MSG =
  hwnd :: HANDLE
  message :: UINT
  wParam :: WPARAM
  lParam :: LPARAM

record CreateWindowExWArgs =
  m_lpWindowName :: string
  m_x :: int
  m_y :: int
  m_nWidth :: int
  m_nHeight :: int
  m_dwStyle :: nat

text \<open>The calls the program makes to the operating system, with their arguments.\<close>

datatype api_call =
    GetModuleHandle
  | RegisterClassW
  | CreateWindowExW CreateWindowExWArgs
  | LoadIcon HANDLE int
  | SendMessage HANDLE UINT WPARAM LPARAM
  | RegisterHotKey HANDLE int nat nat
  | UnregisterHotKey HANDLE int
  | PostQuitMessage int
  | PostMessage HANDLE UINT WPARAM LPARAM
  | GetDC HANDLE
  | ReleaseDC HANDLE HANDLE
  | CreateCompatibleDC HANDLE
  | DeleteObject HANDLE
  | GetClientRect HANDLE
  | CreateCompatibleBitmap HANDLE int int
  | SelectObject HANDLE HANDLE
  | SetStretchBltMode HANDLE int
  | GetSystemMetrics int
  | StretchBlt HANDLE int int int int HANDLE int int int int nat
  | BitBlt HANDLE int int int int HANDLE int int nat
  | BeginPaint HANDLE
  | EndPaint HANDLE
  | FillRect HANDLE RECT int
  | GetStockObject int
  | TextOut HANDLE int int string int
  | ShowWindow HANDLE int
  | TranslateMessage MSG
  | DefWindowProc HANDLE UINT WPARAM LPARAM

text \<open>
  What a call gives back: the returned value (a handle, a \<open>BOOL\<close> or an \<open>int\<close>) and, for
  \<open>GetClientRect\<close> and \<open>BeginPaint\<close>, the rectangle written through the pointer
  argument. The operating system is left open: it answers the \<open>n\<close>-th call of the
  run as it likes.
\<close>

record ret =
  val :: int
  out_rect :: RECT

type_synonym opsys = "nat \<Rightarrow> api_call \<Rightarrow> ret"

section \<open>The state of the process\<close>

datatype item = Txt string | Dec nat | Hex nat

datatype diag = Line "item list" | ApiFailure api_call

datatype input = Deliver MSG | GetMessageFails

text \<open>
  \<^item> \<open>g_tracingLevel\<close> is the global of that name; \<open>wcerr\<close> is what has been written to
    \<open>std::wcerr\<close>, one entry a line; \<open>m_hwnd\<close> is the window's handle.
  \<^item> \<open>calls\<close> logs the API calls made, in order, each with what it gave back.
  \<^item> \<open>hotkeys\<close>, \<open>queue\<close>, \<open>quit\<close>, \<open>window_open\<close> are the operating system's:
    the hot keys registered, the thread's posted messages, the exit code of a pending
    \<open>PostQuitMessage\<close>, and whether the window exists. \<open>pending\<close> is the input still
    to come from outside (keystrokes, hot keys, paint requests).
\<close>

record world =
  g_tracingLevel :: int
  wcerr :: "diag list"
  m_hwnd :: HANDLE
  calls :: "(api_call \<times> ret) list"
  hotkeys :: "(HANDLE \<times> int) list"
  queue :: "MSG list"
  quit :: "int option"
  window_open :: bool
  pending :: "input list"

text \<open>
  \<^verbatim>\<open>
  #define TRACE(level, msg)           \
    if (g_tracingLevel >= (level)) {  \
      std::wcerr << msg << std::endl; \
    }
  \<close>
\<close>

definition TRACE :: "int \<Rightarrow> diag \<Rightarrow> world \<Rightarrow> world" where
  "TRACE level msg w =
     (if g_tracingLevel w \<ge> level then w\<lparr>wcerr := wcerr w @ [msg]\<rparr> else w)"

definition TRACE1 :: "diag \<Rightarrow> world \<Rightarrow> world" where
  "TRACE1 msg = TRACE 1 msg"

definition TRACE2 :: "diag \<Rightarrow> world \<Rightarrow> world" where
  "TRACE2 msg = TRACE 2 msg"

definition TRACE3 :: "diag \<Rightarrow> world \<Rightarrow> world" where
  "TRACE3 msg = TRACE 3 msg"

definition HOTKEY_ID_F5 :: int where "HOTKEY_ID_F5 = 1"
definition HOTKEY_ID_UP :: int where "HOTKEY_ID_UP = 2"

subsection \<open>Calling the operating system\<close>

text \<open>
  A call is logged and answered by the operating system. Four calls act on the operating system's
  part of the state: a successful \<open>RegisterHotKey\<close> adds the hot key; \<open>UnregisterHotKey\<close>
  succeeds exactly when the hot key is registered, and removes it; a successful
  \<open>PostMessage\<close> appends to the queue; \<open>PostQuitMessage\<close> records its exit code.
\<close>

definition platform :: "api_call \<Rightarrow> ret \<Rightarrow> world \<Rightarrow> ret \<times> world" where
  "platform c r w =
     (case c of
        RegisterHotKey h i fsModifiers vk \<Rightarrow>
          (r, if val r \<noteq> 0 then w\<lparr>hotkeys := hotkeys w @ [(h, i)]\<rparr> else w)
      | UnregisterHotKey h i \<Rightarrow>
          if (h, i) \<in> set (hotkeys w)
          then (r\<lparr>val := 1\<rparr>, w\<lparr>hotkeys := remove1 (h, i) (hotkeys w)\<rparr>)
          else (r\<lparr>val := 0\<rparr>, w)
      | PostMessage h u wp lp \<Rightarrow>
          (r, if val r \<noteq> 0
              then w\<lparr>queue := queue w @ [\<lparr>hwnd = h, message = u, wParam = wp, lParam = lp\<rparr>]\<rparr>
              else w)
      | PostQuitMessage code \<Rightarrow> (r, w\<lparr>quit := Some code\<rparr>)
      | _ \<Rightarrow> (r, w))"

definition winapi :: "opsys \<Rightarrow> api_call \<Rightarrow> world \<Rightarrow> ret \<times> world" where
  "winapi os c w =
     (let (r, wa) = platform c (os (length (calls w)) c) w
      in (r, wa\<lparr>calls := calls wa @ [(c, r)]\<rparr>))"


section \<open>The checking and scoping macros of \<open>winapi-util.h\<close>\<close>

datatype 'a outcome = Returned 'a | Aborted

text \<open>
  Modelled from the spec: \<open>CALL_BOOL_WINAPI\<close> and \<open>CALL_HANDLE_WINAPI\<close> are defined in
  \<open>winapi-util.h\<close>, which is not among the sources. The spec: a failure is
  ``reported via a leveled diagnostic trace written to the process's error stream''
  (level 1 is the level of API call failures, by the comment on \<open>g_tracingLevel\<close>), and
  there is ``no structured error propagation back to a caller beyond the immediate operation
  aborting (the enclosing event handler simply returns without completing its remaining
  steps)''. A \<open>BOOL\<close> of zero and a \<open>NULL\<close> handle are the failures. The statements that
  follow the macro in its function are its continuation \<open>rest\<close>.
\<close>

definition winapiFail :: "api_call \<Rightarrow> world \<Rightarrow> 'a outcome \<times> world" where
  "winapiFail c w = (Aborted, TRACE1 (ApiFailure c) w)"

definition CALL_BOOL_WINAPI ::
  "opsys \<Rightarrow> api_call \<Rightarrow> (ret \<Rightarrow> world \<Rightarrow> 'a outcome \<times> world) \<Rightarrow> world \<Rightarrow> 'a outcome \<times> world" where
  "CALL_BOOL_WINAPI os c rest w =
     (let (r, w1) = winapi os c w
      in if val r = 0 then winapiFail c w1 else rest r w1)"

definition CALL_HANDLE_WINAPI ::
  "opsys \<Rightarrow> api_call \<Rightarrow> (ret \<Rightarrow> world \<Rightarrow> 'a outcome \<times> world) \<Rightarrow> world \<Rightarrow> 'a outcome \<times> world" where
  "CALL_HANDLE_WINAPI os c rest w =
     (let (r, w1) = winapi os c w
      in if val r = NULL then winapiFail c w1 else rest r w1)"

text \<open>
  Modelled from the spec: \<open>GET_AND_RELEASE_HDC\<close>, \<open>GDIObjectDeleter\<close> and
  \<open>SELECT_RESTORE_OBJECT\<close> are declared in \<open>winapi-util.h\<close> too. Each takes a resource
  and gives it back when the enclosing scope is left, ``regardless of whether prior steps
  succeeded'': \<open>GetDC\<close> with \<open>ReleaseDC\<close>, a GDI object with \<open>DeleteObject\<close>,
  \<open>SelectObject\<close> with the selection of the object that was selected before. \<open>scope\<close> is
  the rest of the enclosing C++ scope; its guards are destroyed in the reverse order of their
  construction, which is the nesting below.
\<close>

definition GET_AND_RELEASE_HDC ::
  "opsys \<Rightarrow> HANDLE \<Rightarrow> (HANDLE \<Rightarrow> world \<Rightarrow> 'a outcome \<times> world) \<Rightarrow> world \<Rightarrow> 'a outcome \<times> world" where
  "GET_AND_RELEASE_HDC os h scope w =
     CALL_HANDLE_WINAPI os (GetDC h)
       (\<lambda>r w1.
          let hdc = val r;
              (res, w2) = scope hdc w1;
              (_, w3) = winapi os (ReleaseDC h hdc) w2
          in (res, w3)) w"

definition GDIObjectDeleter ::
  "opsys \<Rightarrow> HANDLE \<Rightarrow> (world \<Rightarrow> 'a outcome \<times> world) \<Rightarrow> world \<Rightarrow> 'a outcome \<times> world" where
  "GDIObjectDeleter os obj scope w =
     (let (res, w1) = scope w;
          (_, w2) = winapi os (DeleteObject obj) w1
      in (res, w2))"

definition SELECT_RESTORE_OBJECT ::
  "opsys \<Rightarrow> HANDLE \<Rightarrow> HANDLE \<Rightarrow> (world \<Rightarrow> 'a outcome \<times> world) \<Rightarrow> world \<Rightarrow> 'a outcome \<times> world" where
  "SELECT_RESTORE_OBJECT os hdc obj scope w =
     CALL_HANDLE_WINAPI os (SelectObject hdc obj)
       (\<lambda>r w1.
          let previous = val r;
              (res, w2) = scope w1;
              (_, w3) = winapi os (SelectObject hdc previous) w2
          in (res, w3)) w"

section \<open>The window: \<open>GTLMainWindow\<close>\<close>

text \<open>
  \<open>captureScreen\<close>, statement by statement. The result of \<open>SetStretchBltMode\<close> is
  dropped (``This function does not have a sensible way to signal errors, so I do not
  check''), and so are those of the two \<open>GetSystemMetrics\<close> calls, which are arguments of
  \<open>StretchBlt\<close>. C++ leaves the order of the two open; they are taken from the right
  to the left, as the compilers for Windows evaluate the arguments of a call. The two
  differences are differences of \<open>LONG\<close>s: they wrap around at 32 bits, which is what the
  compiled subtraction does (in C++ the overflow of a signed subtraction is undefined).
\<close>

definition captureScreen :: "opsys \<Rightarrow> world \<Rightarrow> unit outcome \<times> world" where
  "captureScreen os w =
     GET_AND_RELEASE_HDC os NULL (\<lambda>hdcScreen wa.
     GET_AND_RELEASE_HDC os (m_hwnd wa) (\<lambda>hdcWindow wb.
     CALL_HANDLE_WINAPI os (CreateCompatibleDC hdcWindow) (\<lambda>r1.
     let hdcMemDC = val r1 in
     GDIObjectDeleter os hdcMemDC (\<lambda>wc.
     CALL_BOOL_WINAPI os (GetClientRect (m_hwnd wc)) (\<lambda>r2.
     let rcClient = out_rect r2 in
     CALL_HANDLE_WINAPI os
       (CreateCompatibleBitmap hdcWindow
          (sint (right rcClient - left rcClient))
          (sint (bottom rcClient - top rcClient))) (\<lambda>r3.
     let hbmScreenshot = val r3 in
     GDIObjectDeleter os hbmScreenshot (
     SELECT_RESTORE_OBJECT os hdcMemDC hbmScreenshot (\<lambda>wd.
       let (_, we) = winapi os (SetStretchBltMode hdcMemDC HALFTONE) wd;
           (cy, wz) = winapi os (GetSystemMetrics SM_CYSCREEN) we;
           (cx, wg) = winapi os (GetSystemMetrics SM_CXSCREEN) wz
       in CALL_BOOL_WINAPI os
            (StretchBlt hdcMemDC 0 0 (sint (right rcClient)) (sint (bottom rcClient))
               hdcScreen 0 0 (val cx) (val cy) SRCCOPY) (\<lambda>_.
          CALL_BOOL_WINAPI os
            (BitBlt hdcWindow 0 0 (sint (right rcClient)) (sint (bottom rcClient))
               hdcMemDC 0 0 SRCCOPY) (\<lambda>_ wh. (Returned (), wh))) wg)))) wc)) wb) wa) w"


text \<open>
  \<open>onPaint\<close>. The inner braces are a scope of their own, so the font selection is undone
  before \<open>EndPaint\<close>; \<open>EndPaint\<close> is one of the remaining steps when \<open>TextOut\<close> fails.
\<close>

definition onPaint :: "opsys \<Rightarrow> world \<Rightarrow> unit outcome \<times> world" where
  "onPaint os w =
     CALL_HANDLE_WINAPI os (BeginPaint (m_hwnd w)) (\<lambda>r wa.
       let hdc = val r;
           rcPaint = out_rect r;
           (_, wb) = winapi os (FillRect hdc rcPaint (COLOR_WINDOW + 1)) wa;
           (f, wc) = winapi os (GetStockObject SYSTEM_FONT) wb;
           hFont = val f;
           (res, wd) =
             SELECT_RESTORE_OBJECT os hdc hFont
               (CALL_BOOL_WINAPI os (TextOut hdc 10 10 ''Sample text'' 11)
                  (\<lambda>_ we. (Returned (), we))) wc
       in case res of
            Aborted \<Rightarrow> (Aborted, wd)
          | Returned _ \<Rightarrow> (Returned (), snd (winapi os (EndPaint (m_hwnd wd)) wd))) w"

text \<open>
  \<^verbatim>\<open>
  void GTLMainWindow::onHotKey(WPARAM id, WPARAM fsModifiers, WPARAM vk)
  {
    TRACE2(L"hotkey:" " id=" << id << " fsModifiers=" << fsModifiers << " vk=" << vk);
    if (id == HOTKEY_ID_F5) {
      captureScreen();
    }
  }
  \<close>
\<close>

definition onHotKey :: "opsys \<Rightarrow> WPARAM \<Rightarrow> WPARAM \<Rightarrow> WPARAM \<Rightarrow> world \<Rightarrow> unit outcome \<times> world" where
  "onHotKey os ident fsModifiers vk w =
     (let wa = TRACE2 (Line [Txt ''hotkey: id='', Dec (unat ident),
                             Txt '' fsModifiers='', Dec (unat fsModifiers),
                             Txt '' vk='', Dec (unat vk)]) w
      in if ident = word_of_int HOTKEY_ID_F5 then captureScreen os wa
         else (Returned (), wa))"

text \<open>
  \<open>onKeyDown\<close>. The result of \<open>PostMessage\<close> is not looked at. The \<open>bool\<close> returned says
  whether the key was handled.
\<close>

definition onKeyDown :: "opsys \<Rightarrow> WPARAM \<Rightarrow> LPARAM \<Rightarrow> world \<Rightarrow> bool \<times> world" where
  "onKeyDown os wp lp w =
     (let wa = TRACE2 (Line [Txt ''onKeyDown:'', Txt '' wParam='', Hex (unat wp),
                             Txt '' lParam='', Hex (unat lp)]) w
      in if wp = KEY_Q
         then let wb = TRACE2 (Line [Txt ''Saw Q keypress.'']) wa;
                  (_, wc) = winapi os (PostMessage (m_hwnd wb) WM_CLOSE 0 0) wb
              in (True, wc)
         else (False, wa))"

text \<open>
  \<open>handleMessage\<close>. \<open>BaseWindow::handleMessage\<close>, which the last line of the source
  calls, is declared in a header that is not among the sources: it is the parameter
  \<open>base\<close>. A handler that was abandoned leaves \<open>handleMessage\<close> abandoned.
\<close>

definition handleMessage ::
  "opsys \<Rightarrow> (UINT \<Rightarrow> WPARAM \<Rightarrow> LPARAM \<Rightarrow> world \<Rightarrow> LRESULT outcome \<times> world) \<Rightarrow>
   UINT \<Rightarrow> WPARAM \<Rightarrow> LPARAM \<Rightarrow> world \<Rightarrow> LRESULT outcome \<times> world" where
  "handleMessage os base uMsg wp lp w =
     (if uMsg = WM_CREATE then
        let (m, wa) = winapi os GetModuleHandle w;
            (icon, wb) = winapi os (LoadIcon (val m) 1) wa;
            (_, wc) = winapi os (SendMessage (m_hwnd wb) WM_SETICON ICON_SMALL (word_of_int (val icon))) wb;
            (_, wd) = winapi os (SendMessage (m_hwnd wc) WM_SETICON ICON_BIG (word_of_int (val icon))) wc
        in CALL_BOOL_WINAPI os (RegisterHotKey (m_hwnd wd) HOTKEY_ID_F5 0 VK_F5) (\<lambda>_ we.
           CALL_BOOL_WINAPI os (RegisterHotKey (m_hwnd we) HOTKEY_ID_UP 0 VK_UP) (\<lambda>_ wz.
           (Returned 0, wz)) we) wd
      else if uMsg = WM_DESTROY then
        let wa = TRACE2 (Line [Txt ''received WM_DESTROY'']) w
        in CALL_BOOL_WINAPI os (UnregisterHotKey (m_hwnd wa) HOTKEY_ID_F5) (\<lambda>_ wb.
           CALL_BOOL_WINAPI os (UnregisterHotKey (m_hwnd wb) HOTKEY_ID_UP) (\<lambda>_ wc.
           let (_, wd) = winapi os (PostQuitMessage 0) wc
           in (Returned 0, wd)) wb) wa
      else if uMsg = WM_PAINT then
        (case onPaint os w of
           (Aborted, wa) \<Rightarrow> (Aborted, wa)
         | (Returned _, wa) \<Rightarrow> (Returned 0, wa))
      else if uMsg = WM_HOTKEY then
        (case onHotKey os wp (LOWORD lp) (HIWORD lp) w of
           (Aborted, wa) \<Rightarrow> (Aborted, wa)
         | (Returned _, wa) \<Rightarrow> (Returned 0, wa))
      else if uMsg = WM_KEYDOWN then
        (let (handled, wa) = onKeyDown os wp lp w
         in if handled then (Returned 0, wa) else base uMsg wp lp wa)
      else base uMsg wp lp w)"

section \<open>Default handling, window creation and the message queue\<close>

text \<open>
  Modelled from the spec: \<open>BaseWindow::handleMessage\<close> (not among the sources). The
  spec: ``Any unrecognized event falls through to default system handling'', which is
  \<open>DefWindowProc\<close>. Of the system's default handling only that of \<open>WM_CLOSE\<close> matters to
  the program: it destroys the window, and the window procedure receives \<open>WM_DESTROY\<close>
  before the window is gone.
\<close>

definition no_base :: "UINT \<Rightarrow> WPARAM \<Rightarrow> LPARAM \<Rightarrow> world \<Rightarrow> LRESULT outcome \<times> world" where
  "no_base uMsg wp lp w = (Returned 0, w)"

definition DestroyWindow :: "opsys \<Rightarrow> world \<Rightarrow> world" where
  "DestroyWindow os w =
     (snd (handleMessage os no_base WM_DESTROY 0 0 w))\<lparr>window_open := False\<rparr>"

definition BaseWindow_handleMessage ::
  "opsys \<Rightarrow> UINT \<Rightarrow> WPARAM \<Rightarrow> LPARAM \<Rightarrow> world \<Rightarrow> LRESULT outcome \<times> world" where
  "BaseWindow_handleMessage os uMsg wp lp w =
     (let (r, wa) = winapi os (DefWindowProc (m_hwnd w) uMsg wp lp) w
      in (Returned (val r), if uMsg = WM_CLOSE then DestroyWindow os wa else wa))"

definition WindowProc :: "opsys \<Rightarrow> UINT \<Rightarrow> WPARAM \<Rightarrow> LPARAM \<Rightarrow> world \<Rightarrow> LRESULT outcome \<times> world" where
  "WindowProc os = handleMessage os (BaseWindow_handleMessage os)"

text \<open>
  Modelled from the spec: \<open>BaseWindow::createWindow\<close> (not among the sources). The
  spec: ``the process registers the window class, creates the window, registers two global
  hotkeys, then enters a blocking event loop''; the hot keys are registered by the
  \<open>WM_CREATE\<close> case of \<open>handleMessage\<close>, which the system calls while it creates the
  window. A failure of either call is reported and ends the creation.
\<close>

definition createWindow :: "opsys \<Rightarrow> CreateWindowExWArgs \<Rightarrow> world \<Rightarrow> unit outcome \<times> world" where
  "createWindow os cw w =
     CALL_BOOL_WINAPI os RegisterClassW (\<lambda>_.
     CALL_HANDLE_WINAPI os (CreateWindowExW cw) (\<lambda>r wa.
       let wb = wa\<lparr>m_hwnd := val r, window_open := True\<rparr>
       in (Returned (), snd (WindowProc os WM_CREATE 0 0 wb)))) w"

text \<open>
  \<open>GetMessage\<close> takes the next posted message; when there is none, a pending
  \<open>PostQuitMessage\<close> makes it return 0 with \<open>WM_QUIT\<close>; otherwise it waits for input from
  outside, which is a message or the failure -1. \<open>None\<close>: no input is left, and it
  waits for ever.

  \<open>DispatchMessage\<close> calls the window procedure of the message's window, if that is the
  program's window and it exists. \<open>TranslateMessage\<close> produces character messages, for which
  the program has no handler; they are left out.
\<close>

definition GetMessage :: "world \<Rightarrow> (int \<times> MSG \<times> world) option" where
  "GetMessage w =
     (case queue w of
        m # ms \<Rightarrow> Some (if message m = WM_QUIT then 0 else 1, m, w\<lparr>queue := ms\<rparr>)
      | [] \<Rightarrow>
          (case quit w of
             Some code \<Rightarrow>
               Some (0, \<lparr>hwnd = NULL, message = WM_QUIT, wParam = word_of_int code, lParam = 0\<rparr>,
                     w\<lparr>quit := None\<rparr>)
           | None \<Rightarrow>
               (case pending w of
                  [] \<Rightarrow> None
                | Deliver m # rest \<Rightarrow>
                    Some (if message m = WM_QUIT then 0 else 1, m, w\<lparr>pending := rest\<rparr>)
                | GetMessageFails # rest \<Rightarrow>
                    Some (- 1, \<lparr>hwnd = NULL, message = 0, wParam = 0, lParam = 0\<rparr>,
                          w\<lparr>pending := rest\<rparr>))))"

definition DispatchMessage :: "opsys \<Rightarrow> MSG \<Rightarrow> world \<Rightarrow> world" where
  "DispatchMessage os msg w =
     (if hwnd msg = m_hwnd w \<and> window_open w
      then snd (WindowProc os (message msg) (wParam msg) (lParam msg) w)
      else w)"

section \<open>The entry point\<close>

text \<open>
  \<^verbatim>\<open>
  while (GetMessage(&msg, NULL, 0, 0) > 0) {
    TranslateMessage(&msg);
    DispatchMessage(&msg);
  }
  \<close>
  The loop need not end; the first argument bounds the number of its iterations, and
  \<open>None\<close> is a loop that has not ended within the bound or waits for ever.
\<close>

fun message_loop :: "nat \<Rightarrow> opsys \<Rightarrow> world \<Rightarrow> world option" where
  "message_loop 0 os w = None"
| "message_loop (Suc n) os w =
     (case GetMessage w of
        None \<Rightarrow> None
      | Some (r, msg, wa) \<Rightarrow>
          if r > 0
          then message_loop n os
                 (DispatchMessage os msg (snd (winapi os (TranslateMessage msg) wa)))
          else Some wa)"

datatype exit = ExitCode int | AssertionFailure

text \<open>
  \<open>wWinMain\<close>. The \<open>assert\<close> aborts the process when \<open>hInstance\<close> is not the module
  handle. \<open>g_tracingLevel\<close> starts at 1, its initialiser, and is overwritten before anything
  reads it.
\<close>

definition initial_world :: "input list \<Rightarrow> world" where
  "initial_world inputs =
     \<lparr>g_tracingLevel = 1, wcerr = [], m_hwnd = NULL, calls = [],
      hotkeys = [], queue = [], quit = None, window_open = False, pending = inputs\<rparr>"

definition wWinMain ::
  "nat \<Rightarrow> opsys \<Rightarrow> environ \<Rightarrow> HANDLE \<Rightarrow> int \<Rightarrow> world \<Rightarrow> (exit \<times> world) option" where
  "wWinMain fuel os env hInstance nCmdShow w =
     (let (m, wa) = winapi os GetModuleHandle w
      in if hInstance \<noteq> val m then Some (AssertionFailure, wa)
         else
           let wb = wa\<lparr>g_tracingLevel := envIntOr env ''TRACE'' 1\<rparr>;
               cw = \<lparr>m_lpWindowName = ''Game TODO List'', m_x = 200, m_y = 200,
                     m_nWidth = 400, m_nHeight = 400, m_dwStyle = WS_OVERLAPPEDWINDOW\<rparr>;
               (_, wc) = createWindow os cw wb;
               wd = TRACE2 (Line [Txt ''Calling ShowWindow'']) wc;
               (_, we) = winapi os (ShowWindow (m_hwnd wd) nCmdShow) wd
           in case message_loop fuel os we of
                None \<Rightarrow> None
              | Some wz \<Rightarrow> Some (ExitCode 0, TRACE2 (Line [Txt ''Returning from main'']) wz))"


section \<open>Notions the properties are stated with\<close>

text \<open>
  The decimal numeral of an integer, and the strings in which \<open>atoi\<close> finds no number:
  after the white space and an optional sign, no digit follows.
\<close>

fun digits_of :: "nat \<Rightarrow> string" where
  "digits_of n =
     (if n < 10 then [char_of (48 + n)]
      else digits_of (n div 10) @ [char_of (48 + n mod 10)])"

definition decimal :: "int \<Rightarrow> string" where
  "decimal i = (if i < 0 then CHR ''-'' # digits_of (nat (- i)) else digits_of (nat i))"

definition non_numeric :: "string \<Rightarrow> bool" where
  "non_numeric s =
     (case dropWhile isspace s of
        [] \<Rightarrow> True
      | c # cs \<Rightarrow>
          if c = CHR ''-'' \<or> c = CHR ''+''
          then (case cs of [] \<Rightarrow> True | d # _ \<Rightarrow> \<not> isdigit d)
          else \<not> isdigit c)"

text \<open>
  The calls that do not act on the operating system's part of the state, and what every
  operation made of such calls leaves as it was: all of the state but the log of the calls
  and the diagnostic output, and the diagnostic output too when the tracing level is 0 or
  less.
\<close>

definition plain :: "api_call \<Rightarrow> bool" where
  "plain c =
     (case c of
        RegisterHotKey h i m v \<Rightarrow> False
      | UnregisterHotKey h i \<Rightarrow> False
      | PostMessage h u wp lp \<Rightarrow> False
      | PostQuitMessage code \<Rightarrow> False
      | _ \<Rightarrow> True)"

definition frame :: "world \<Rightarrow> world \<Rightarrow> bool" where
  "frame w w' =
     (g_tracingLevel w' = g_tracingLevel w \<and> m_hwnd w' = m_hwnd w \<and> hotkeys w' = hotkeys w
      \<and> queue w' = queue w \<and> quit w' = quit w \<and> window_open w' = window_open w
      \<and> pending w' = pending w \<and> (g_tracingLevel w \<le> 0 \<longrightarrow> wcerr w' = wcerr w))"

text \<open>
  \<open>new_calls w w'\<close> and \<open>new_output w w'\<close> are the calls made and the lines written
  between the states \<open>w\<close> and \<open>w'\<close>.
\<close>

definition new_calls :: "world \<Rightarrow> world \<Rightarrow> (api_call \<times> ret) list" where
  "new_calls w w' = drop (length (calls w)) (calls w')"

definition new_output :: "world \<Rightarrow> world \<Rightarrow> diag list" where
  "new_output w w' = drop (length (wcerr w)) (wcerr w')"

text \<open>
  The graphics resources a call log shows as held. A device context is held from the
  \<open>GetDC\<close> that returned it to the \<open>ReleaseDC\<close> of it for the same window; a memory
  device context or a bitmap from the \<open>CreateCompatibleDC\<close> or \<open>CreateCompatibleBitmap\<close>
  that returned it to the \<open>DeleteObject\<close> of it; the selected-object state of a device
  context from the \<open>SelectObject\<close> that returned the object selected before to the
  \<open>SelectObject\<close> that selects that object again. A call that returned \<open>NULL\<close> took
  nothing. \<open>take_or_give\<close> is what one call does to the resources held, the most recent
  first: a release has to be of the resource taken last (so every resource is given back
  once, in the reverse order of taking), otherwise the result is \<open>None\<close>.
  \<open>held_after held cs\<close> reads the log \<open>cs\<close> with \<open>held\<close> held. The scoped calls
  are the calls that take or give back.
\<close>

datatype resource = DC HANDLE HANDLE | GdiObject HANDLE | Selection HANDLE HANDLE

definition take_or_give :: "api_call \<Rightarrow> ret \<Rightarrow> resource list \<Rightarrow> resource list option" where
  "take_or_give c r held =
     (case c of
        GetDC h \<Rightarrow> Some (if val r \<noteq> NULL then DC h (val r) # held else held)
      | CreateCompatibleDC h \<Rightarrow> Some (if val r \<noteq> NULL then GdiObject (val r) # held else held)
      | CreateCompatibleBitmap h cx cy \<Rightarrow>
          Some (if val r \<noteq> NULL then GdiObject (val r) # held else held)
      | ReleaseDC h hdc \<Rightarrow>
          if held \<noteq> [] \<and> hd held = DC h hdc then Some (tl held) else None
      | DeleteObject obj \<Rightarrow>
          if held \<noteq> [] \<and> hd held = GdiObject obj then Some (tl held) else None
      | SelectObject hdc obj \<Rightarrow>
          if held \<noteq> [] \<and> hd held = Selection hdc obj then Some (tl held)
          else Some (if val r \<noteq> NULL then Selection hdc (val r) # held else held)
      | _ \<Rightarrow> Some held)"

fun held_after :: "resource list \<Rightarrow> (api_call \<times> ret) list \<Rightarrow> resource list option" where
  "held_after held [] = Some held"
| "held_after held ((c, r) # cs) =
     (case take_or_give c r held of
        None \<Rightarrow> None
      | Some held' \<Rightarrow> held_after held' cs)"

definition scoped :: "api_call \<Rightarrow> bool" where
  "scoped c =
     (case c of
        GetDC h \<Rightarrow> True
      | ReleaseDC h hdc \<Rightarrow> True
      | CreateCompatibleDC h \<Rightarrow> True
      | CreateCompatibleBitmap h cx cy \<Rightarrow> True
      | DeleteObject obj \<Rightarrow> True
      | SelectObject hdc obj \<Rightarrow> True
      | _ \<Rightarrow> False)"

text \<open>
  The calls of the program that are made through a checking macro wherever they are made, and
  those whose failure can be reported at all: \<open>SelectObject\<close> is tested when it selects
  and not when it restores. \<open>reported level cs ds\<close> relates calls made to lines written: at
  a level of 1 or more every checked call that returned 0 has its report among the lines, and
  at any level a report is of an examined call that was made and returned 0. \<open>reports\<close>
  says so of what happened between two states, between which the level has not changed;
  \<open>failure_reported\<close>, that a report was written between them. An operation run from
  \<open>w\<close> with the result \<open>p\<close> checks its calls when it reports in this way and, at a
  level of 1 or more, is abandoned exactly when it has written a report.
\<close>

definition checked :: "api_call \<Rightarrow> bool" where
  "checked c =
     (case c of
        RegisterClassW \<Rightarrow> True
      | CreateWindowExW cw \<Rightarrow> True
      | RegisterHotKey h i fsModifiers vk \<Rightarrow> True
      | UnregisterHotKey h i \<Rightarrow> True
      | BeginPaint h \<Rightarrow> True
      | TextOut h x y s n \<Rightarrow> True
      | GetDC h \<Rightarrow> True
      | CreateCompatibleDC h \<Rightarrow> True
      | GetClientRect h \<Rightarrow> True
      | CreateCompatibleBitmap h cx cy \<Rightarrow> True
      | StretchBlt d1 d2 d3 d4 d5 s1 s2 s3 s4 s5 rop \<Rightarrow> True
      | BitBlt d1 d2 d3 d4 d5 s1 s2 s3 rop \<Rightarrow> True
      | _ \<Rightarrow> False)"

definition examined :: "api_call \<Rightarrow> bool" where
  "examined c = (checked c \<or> (case c of SelectObject h obj \<Rightarrow> True | _ \<Rightarrow> False))"

definition is_report :: "diag \<Rightarrow> bool" where
  "is_report d = (case d of ApiFailure c \<Rightarrow> True | Line l \<Rightarrow> False)"

definition reported :: "int \<Rightarrow> (api_call \<times> ret) list \<Rightarrow> diag list \<Rightarrow> bool" where
  "reported level cs ds =
     ((1 \<le> level \<longrightarrow> (\<forall>(c, r) \<in> set cs. checked c \<and> val r = 0 \<longrightarrow> ApiFailure c \<in> set ds))
      \<and> (\<forall>d \<in> set ds.
           case d of
             ApiFailure c \<Rightarrow> examined c \<and> (\<exists>(c', r) \<in> set cs. c' = c \<and> val r = 0)
           | Line l \<Rightarrow> True))"

definition reports :: "world \<Rightarrow> world \<Rightarrow> bool" where
  "reports w w' =
     (g_tracingLevel w' = g_tracingLevel w
      \<and> take (length (calls w)) (calls w') = calls w
      \<and> take (length (wcerr w)) (wcerr w') = wcerr w
      \<and> reported (g_tracingLevel w) (new_calls w w') (new_output w w'))"

definition failure_reported :: "world \<Rightarrow> world \<Rightarrow> bool" where
  "failure_reported w w' = (\<exists>d \<in> set (new_output w w'). is_report d)"

definition checks :: "world \<Rightarrow> 'a outcome \<times> world \<Rightarrow> bool" where
  "checks w p =
     (reports w (snd p)
      \<and> (1 \<le> g_tracingLevel w \<longrightarrow> (fst p = Aborted \<longleftrightarrow> failure_reported w (snd p))))"

text \<open>
  The width and the height of a rectangle, as numbers; they fit when they are within the
  range of a \<open>LONG\<close>, which is the range of an \<open>int\<close>. The rectangle of a client
  area has its left upper corner at (0, 0), so it fits.

  \<open>bitmap_sized p cs\<close> reads a call log with \<open>p\<close> the rectangle of a client-rectangle
  query that has just succeeded, if any: right after such a query the next call is the
  allocation of a bitmap of exactly its width and height, and no bitmap is allocated anywhere
  else. \<open>drawing\<close> picks the query, the allocation and the two copies out of a log.
\<close>

definition width :: "RECT \<Rightarrow> int" where
  "width rc = sint (right rc) - sint (left rc)"

definition height :: "RECT \<Rightarrow> int" where
  "height rc = sint (bottom rc) - sint (top rc)"

definition fits :: "RECT \<Rightarrow> bool" where
  "fits rc =
     (INT_MIN \<le> width rc \<and> width rc \<le> INT_MAX \<and> INT_MIN \<le> height rc \<and> height rc \<le> INT_MAX)"

fun bitmap_sized :: "RECT option \<Rightarrow> (api_call \<times> ret) list \<Rightarrow> bool" where
  "bitmap_sized p [] = (p = None)"
| "bitmap_sized p ((c, r) # cs) =
     ((case p of
         None \<Rightarrow> (case c of CreateCompatibleBitmap h cx cy \<Rightarrow> False | _ \<Rightarrow> True)
       | Some rc \<Rightarrow>
           (case c of
              CreateCompatibleBitmap h cx cy \<Rightarrow> cx = width rc \<and> cy = height rc
            | _ \<Rightarrow> False))
      \<and> bitmap_sized
          (case c of
             GetClientRect h \<Rightarrow> if val r \<noteq> 0 then Some (out_rect r) else None
           | _ \<Rightarrow> None) cs)"

definition drawing :: "api_call \<Rightarrow> bool" where
  "drawing c =
     (case c of
        GetClientRect h \<Rightarrow> True
      | CreateCompatibleBitmap h cx cy \<Rightarrow> True
      | StretchBlt d1 d2 d3 d4 d5 s1 s2 s3 s4 s5 rop \<Rightarrow> True
      | BitBlt d1 d2 d3 d4 d5 s1 s2 s3 rop \<Rightarrow> True
      | _ \<Rightarrow> False)"

text \<open>
  Operating systems and a state to run the operations on: one whose \<open>n\<close>-th answer is
  \<open>n + 1\<close> and whose client rectangle is 640 by 480; the same with an empty client
  rectangle; one where only \<open>SetStretchBltMode\<close> fails; one where only the copy
  from the screen fails; one where only \<open>PostMessage\<close> fails; one where every call
  fails.
  \<open>window7\<close> is the initial state with the window 7 open. \<open>env_unset\<close> is the
  environment without variables, \<open>env_TRACE v\<close> the one where \<open>TRACE\<close> is \<open>v\<close>.
\<close>

definition env_unset :: environ where
  "env_unset = Map.empty"

definition env_TRACE :: "string \<Rightarrow> environ" where
  "env_TRACE v = env_unset(''TRACE'' \<mapsto> v)"

definition os_counting :: opsys where
  "os_counting n c =
     \<lparr>val = int n + 1, out_rect = \<lparr>left = 0, top = 0, right = 640, bottom = 480\<rparr>\<rparr>"

definition os_empty_client :: opsys where
  "os_empty_client n c =
     \<lparr>val = int n + 1, out_rect = \<lparr>left = 0, top = 0, right = 0, bottom = 0\<rparr>\<rparr>"


definition os_post_fails :: opsys where
  "os_post_fails n c =
     \<lparr>val = (case c of PostMessage h u wp lp \<Rightarrow> 0 | _ \<Rightarrow> int n + 1),
      out_rect = \<lparr>left = 0, top = 0, right = 640, bottom = 480\<rparr>\<rparr>"

definition os_copy_fails :: opsys where
  "os_copy_fails n c =
     \<lparr>val = (case c of StretchBlt d1 d2 d3 d4 d5 s1 s2 s3 s4 s5 rop \<Rightarrow> 0 | _ \<Rightarrow> int n + 1),
      out_rect = \<lparr>left = 0, top = 0, right = 640, bottom = 480\<rparr>\<rparr>"

definition os_refuses :: opsys where
  "os_refuses n c = \<lparr>val = 0, out_rect = \<lparr>left = 0, top = 0, right = 0, bottom = 0\<rparr>\<rparr>"

definition window7 :: "world" where
  "window7 = (initial_world [])\<lparr>m_hwnd := 7, window_open := True\<rparr>"

text \<open>
  The messages \<open>handleMessage\<close> has a case for, and the hot keys a call log shows as
  registered and as unregistered: the calls that succeeded, in order.
\<close>

definition dedicated :: "UINT \<Rightarrow> bool" where
  "dedicated uMsg = (uMsg \<in> {WM_CREATE, WM_DESTROY, WM_PAINT, WM_HOTKEY, WM_KEYDOWN})"

fun registered :: "(api_call \<times> ret) list \<Rightarrow> (HANDLE \<times> int) list" where
  "registered [] = []"
| "registered ((c, r) # cs) =
     (case c of
        RegisterHotKey h i fsModifiers vk \<Rightarrow> if val r \<noteq> 0 then [(h, i)] else []
      | _ \<Rightarrow> []) @ registered cs"

fun unregistered :: "(api_call \<times> ret) list \<Rightarrow> (HANDLE \<times> int) list" where
  "unregistered [] = []"
| "unregistered ((c, r) # cs) =
     (case c of
        UnregisterHotKey h i \<Rightarrow> if val r \<noteq> 0 then [(h, i)] else []
      | _ \<Rightarrow> []) @ unregistered cs"

text \<open>
  \<open>quiet\<close>: the tracing level is kept, and at a level of 0 or less nothing is written.
  The harmless messages are those that neither create, close or destroy the window nor end
  the loop: all but \<open>WM_CREATE\<close>, \<open>WM_DESTROY\<close>, \<open>WM_CLOSE\<close>, \<open>WM_QUIT\<close> and the
  key Q.
\<close>

definition quiet :: "world \<Rightarrow> world \<Rightarrow> bool" where
  "quiet w w' =
     (g_tracingLevel w' = g_tracingLevel w \<and> (g_tracingLevel w \<le> 0 \<longrightarrow> wcerr w' = wcerr w))"

definition harmless :: "MSG \<Rightarrow> bool" where
  "harmless m =
     (message m \<noteq> WM_CREATE \<and> message m \<noteq> WM_DESTROY \<and> message m \<noteq> WM_CLOSE
      \<and> message m \<noteq> WM_QUIT \<and> \<not> (message m = WM_KEYDOWN \<and> wParam m = KEY_Q))"

text \<open>
  The calls on whose success the closing of the window depends: the creation of the window
  with its two hot keys, and the posting of the close message. (\<open>UnregisterHotKey\<close>
  succeeds exactly on a hot key that is registered.) The window \<open>wWinMain\<close> creates is what
  the third call of the run returns, after \<open>GetModuleHandle\<close> and the registration of the
  class. A window is ready when it is open with both hot keys registered, nothing posted and no
  quit pending. \<open>key_Q_down h lp\<close> is the message of the key Q going down in the window
  \<open>h\<close>, \<open>close_message h\<close> the message that \<open>onKeyDown\<close> posts.
\<close>

definition needed :: "api_call \<Rightarrow> bool" where
  "needed c =
     (case c of
        RegisterClassW \<Rightarrow> True
      | CreateWindowExW cw \<Rightarrow> True
      | RegisterHotKey h i fsModifiers vk \<Rightarrow> True
      | PostMessage h u wp lp \<Rightarrow> True
      | _ \<Rightarrow> False)"

definition succeeds :: "opsys \<Rightarrow> bool" where
  "succeeds os = (\<forall>n c. needed c \<longrightarrow> val (os n c) \<noteq> 0)"

definition ready :: "HANDLE \<Rightarrow> world \<Rightarrow> bool" where
  "ready h w =
     (m_hwnd w = h \<and> window_open w
      \<and> hotkeys w = [(h, HOTKEY_ID_F5), (h, HOTKEY_ID_UP)] \<and> queue w = [] \<and> quit w = None)"

definition main_window :: "opsys \<Rightarrow> HANDLE" where
  "main_window os =
     val (os 2 (CreateWindowExW
                  \<lparr>m_lpWindowName = ''Game TODO List'', m_x = 200, m_y = 200,
                   m_nWidth = 400, m_nHeight = 400, m_dwStyle = WS_OVERLAPPEDWINDOW\<rparr>))"

definition main_window_args :: CreateWindowExWArgs where
  "main_window_args =
     \<lparr>m_lpWindowName = ''Game TODO List'', m_x = 200, m_y = 200,
      m_nWidth = 400, m_nHeight = 400, m_dwStyle = WS_OVERLAPPEDWINDOW\<rparr>"

definition key_Q_down :: "HANDLE \<Rightarrow> LPARAM \<Rightarrow> MSG" where
  "key_Q_down h lp = \<lparr>hwnd = h, message = WM_KEYDOWN, wParam = KEY_Q, lParam = lp\<rparr>"

definition close_message :: "HANDLE \<Rightarrow> MSG" where
  "close_message h = \<lparr>hwnd = h, message = WM_CLOSE, wParam = 0, lParam = 0\<rparr>"

section \<open>What \<open>atoi\<close> reads\<close>

declare digits_of.simps [simp del]

lemma digit_char:
  "n < 10 \<Longrightarrow> isdigit (char_of (48 + n)) \<and> digit_value (char_of (48 + n)) = int n"
  by (simp add: isdigit_def digit_value_def)

lemma read_digits_digits_of:
  "read_digits acc (digits_of n @ cs) = read_digits (acc * 10 ^ length (digits_of n) + int n) cs"
proof (induction n arbitrary: acc cs rule: digits_of.induct)
  case (1 n)
  show ?case
  proof (cases "n < 10")
    case True
    then show ?thesis
      by (subst (1 2) digits_of.simps) (simp add: digit_char mult.commute)
  next
    case False
    have d: "n mod 10 < 10" by simp
    have "read_digits acc (digits_of n @ cs)
          = read_digits acc (digits_of (n div 10) @ (char_of (48 + n mod 10) # cs))"
      using False by (subst digits_of.simps) simp
    also have "\<dots> = read_digits (acc * 10 ^ length (digits_of (n div 10)) + int (n div 10))
                       (char_of (48 + n mod 10) # cs)"
      using "1.IH" [OF False] by simp
    also have "\<dots> = read_digits (10 * (acc * 10 ^ length (digits_of (n div 10)) + int (n div 10))
                                    + int (n mod 10)) cs"
      using digit_char [OF d] by simp
    also have "10 * (acc * 10 ^ length (digits_of (n div 10)) + int (n div 10)) + int (n mod 10)
               = acc * 10 ^ length (digits_of n) + int n"
    proof -
      have "length (digits_of n) = Suc (length (digits_of (n div 10)))"
        using False by (subst digits_of.simps) simp
      moreover have "10 * int (n div 10) + int (n mod 10) = int n"
        by presburger
      ultimately show ?thesis by (simp add: algebra_simps)
    qed
    finally show ?thesis .
  qed
qed

lemma read_digits_decimal_nat: "read_digits 0 (digits_of n) = int n"
  using read_digits_digits_of [of 0 n "[]"] by simp

lemma digits_of_hd: "\<exists>c cs. digits_of n = c # cs \<and> isdigit c"
proof (induction n rule: digits_of.induct)
  case (1 n)
  show ?case
  proof (cases "n < 10")
    case True
    then show ?thesis by (subst digits_of.simps) (simp add: digit_char)
  next
    case False
    with "1.IH" obtain c cs where "digits_of (n div 10) = c # cs" "isdigit c" by blast
    with False show ?thesis by (subst digits_of.simps) simp
  qed
qed

lemma isdigit_not_special:
  "isdigit c \<Longrightarrow> \<not> isspace c \<and> c \<noteq> CHR ''-'' \<and> c \<noteq> CHR ''+''"
  by (auto simp: isdigit_def isspace_def Let_def)

lemma read_signed_decimal: "read_signed (dropWhile isspace (decimal i)) = i"
proof (cases "i < 0")
  case True
  have "\<not> isspace CHR ''-''" by (simp add: isspace_def)
  with True show ?thesis
    by (simp add: decimal_def read_signed_def read_digits_decimal_nat)
next
  case False
  obtain c cs where e: "digits_of (nat i) = c # cs" and d: "isdigit c"
    using digits_of_hd by blast
  have "read_signed (dropWhile isspace (decimal i)) = read_digits 0 (c # cs)"
    using False e isdigit_not_special [OF d] by (simp add: decimal_def read_signed_def)
  also have "\<dots> = i"
    using read_digits_decimal_nat [of "nat i"] e False by simp
  finally show ?thesis .
qed

lemma atoi_decimal: "INT_MIN \<le> i \<Longrightarrow> i \<le> INT_MAX \<Longrightarrow> atoi (decimal i) = i"
  by (simp add: atoi_def read_signed_decimal Let_def)

lemma read_digits_stop:
  "(case cs of [] \<Rightarrow> True | d # _ \<Rightarrow> \<not> isdigit d) \<Longrightarrow> read_digits acc cs = acc"
  by (cases cs) simp_all

lemma read_signed_non_numeric:
  assumes "non_numeric s"
  shows "read_signed (dropWhile isspace s) = 0"
proof (cases "dropWhile isspace s")
  case Nil
  then show ?thesis by (simp only: read_signed_def list.case)
next
  case (Cons c cs)
  show ?thesis
  proof (cases "c = CHR ''-'' \<or> c = CHR ''+''")
    case True
    with assms Cons have "case cs of [] \<Rightarrow> True | d # _ \<Rightarrow> \<not> isdigit d"
      by (simp add: non_numeric_def)
    then have "read_digits 0 cs = 0" by (rule read_digits_stop)
    with True Cons show ?thesis by (auto simp only: read_signed_def list.case split: if_splits)
  next
    case False
    with assms Cons have "\<not> isdigit c" by (simp add: non_numeric_def)
    then have "read_digits 0 (c # cs) = 0" by simp
    with False Cons show ?thesis by (auto simp only: read_signed_def list.case split: if_splits)
  qed
qed

lemma atoi_non_numeric: "non_numeric s \<Longrightarrow> atoi s = 0"
  by (simp add: atoi_def read_signed_non_numeric INT_MIN_def INT_MAX_def)

section \<open>The macros, one rule each\<close>

lemma winapi_fields:
  "g_tracingLevel (snd (winapi os c w)) = g_tracingLevel w"
  "wcerr (snd (winapi os c w)) = wcerr w"
  "m_hwnd (snd (winapi os c w)) = m_hwnd w"
  "window_open (snd (winapi os c w)) = window_open w"
  "pending (snd (winapi os c w)) = pending w"
  "calls (snd (winapi os c w)) = calls w @ [(c, fst (winapi os c w))]"
  by (cases c; simp add: winapi_def platform_def Let_def)+

lemma winapi_plain:
  "plain c \<Longrightarrow> hotkeys (snd (winapi os c w)) = hotkeys w"
  "plain c \<Longrightarrow> queue (snd (winapi os c w)) = queue w"
  "plain c \<Longrightarrow> quit (snd (winapi os c w)) = quit w"
  "plain c \<Longrightarrow> fst (winapi os c w) = os (length (calls w)) c"
  by (cases c; simp add: winapi_def platform_def plain_def Let_def)+

lemma frame_refl: "frame w w"
  by (simp add: frame_def)

lemma frame_trans: "frame a b \<Longrightarrow> frame b c \<Longrightarrow> frame a c"
  by (simp add: frame_def)

lemma frame_winapi: "plain c \<Longrightarrow> frame w (snd (winapi os c w))"
  by (simp add: frame_def winapi_fields winapi_plain)

lemma frame_TRACE: "1 \<le> l \<Longrightarrow> frame w (TRACE l d w)"
  by (simp add: frame_def TRACE_def)

lemma frame_winapiFail: "frame w (snd (winapiFail c w))"
  by (simp add: winapiFail_def TRACE1_def frame_TRACE)

lemma frame_CALL_BOOL:
  assumes "plain c" and "\<And>r wa. frame wa (snd (rest r wa))"
  shows "frame w (snd (CALL_BOOL_WINAPI os c rest w))"
proof (cases "winapi os c w")
  case (Pair r wa)
  then have "frame w wa" using frame_winapi [OF assms(1), of w os] by simp
  then show ?thesis
    using Pair assms(2) [of wa r] frame_winapiFail [of wa c]
    by (auto simp: CALL_BOOL_WINAPI_def intro: frame_trans)
qed

lemma frame_CALL_HANDLE:
  assumes "plain c" and "\<And>r wa. frame wa (snd (rest r wa))"
  shows "frame w (snd (CALL_HANDLE_WINAPI os c rest w))"
proof (cases "winapi os c w")
  case (Pair r wa)
  then have "frame w wa" using frame_winapi [OF assms(1), of w os] by simp
  then show ?thesis
    using Pair assms(2) [of wa r] frame_winapiFail [of wa c]
    by (auto simp: CALL_HANDLE_WINAPI_def intro: frame_trans)
qed

lemma frame_then_winapi:
  assumes "plain c" and "frame w (snd p)"
  shows "frame w (snd (winapi os c (snd p)))"
  using assms frame_winapi [OF assms(1), of "snd p" os]
  by (blast intro: frame_trans)

lemma frame_GDIObjectDeleter:
  assumes "\<And>wa. frame wa (snd (scope wa))"
  shows "frame w (snd (GDIObjectDeleter os obj scope w))"
proof -
  have "frame w (snd (winapi os (DeleteObject obj) (snd (scope w))))"
    by (intro frame_then_winapi assms) (simp_all add: plain_def)
  then show ?thesis
    by (simp add: GDIObjectDeleter_def split_beta)
qed

lemma frame_GET_AND_RELEASE_HDC:
  assumes "\<And>hdc wa. frame wa (snd (scope hdc wa))"
  shows "frame w (snd (GET_AND_RELEASE_HDC os h scope w))"
  unfolding GET_AND_RELEASE_HDC_def
proof (rule frame_CALL_HANDLE)
  show "plain (GetDC h)" by (simp add: plain_def)
next
  fix r wa
  have "frame wa (snd (winapi os (ReleaseDC h (val r)) (snd (scope (val r) wa))))"
    by (intro frame_then_winapi assms) (simp_all add: plain_def)
  then show "frame wa (snd (let hdc = val r;
              (res, w2) = scope hdc wa;
              (_, w3) = winapi os (ReleaseDC h hdc) w2
          in (res, w3)))"
    by (simp add: split_beta Let_def)
qed

lemma frame_SELECT_RESTORE_OBJECT:
  assumes "\<And>wa. frame wa (snd (scope wa))"
  shows "frame w (snd (SELECT_RESTORE_OBJECT os hdc obj scope w))"
  unfolding SELECT_RESTORE_OBJECT_def
proof (rule frame_CALL_HANDLE)
  show "plain (SelectObject hdc obj)" by (simp add: plain_def)
next
  fix r wa
  have "frame wa (snd (winapi os (SelectObject hdc (val r)) (snd (scope wa))))"
    by (intro frame_then_winapi assms) (simp_all add: plain_def)
  then show "frame wa (snd (let previous = val r;
              (res, w2) = scope wa;
              (_, w3) = winapi os (SelectObject hdc previous) w2
          in (res, w3)))"
    by (simp add: split_beta Let_def)
qed

lemma frame_winapi_then:
  assumes "plain c" and "\<And>r wa. frame wa (snd (k r wa))"
  shows "frame w (snd (case winapi os c w of (r, wa) \<Rightarrow> k r wa))"
  using frame_winapi [OF assms(1), of w os] assms(2)
  by (cases "winapi os c w") (auto intro: frame_trans)

lemma frame_Returned: "frame w (snd (Returned x, w))"
  by (simp add: frame_refl)

lemmas frame_intros = frame_GET_AND_RELEASE_HDC frame_CALL_HANDLE frame_CALL_BOOL
  frame_GDIObjectDeleter frame_SELECT_RESTORE_OBJECT frame_winapi_then frame_Returned

lemma frame_captureScreen: "frame w (snd (captureScreen os w))"
  unfolding captureScreen_def Let_def
  by (intro frame_intros) (simp_all add: plain_def)

text \<open>
  The definitions as rewrite rules that apply to a state written out as a record only, so
  that an operation is run from its first statement on and never inside a continuation.
\<close>

lemmas run_simps =
  TRACE_def [where w = "\<lparr>g_tracingLevel = a, wcerr = b, m_hwnd = c, calls = d,
     hotkeys = f, queue = g, quit = h, window_open = i, pending = j\<rparr>" for a b c d f g h i j]
  platform_def [where w = "\<lparr>g_tracingLevel = a, wcerr = b, m_hwnd = c, calls = d,
     hotkeys = f, queue = g, quit = h, window_open = i, pending = j\<rparr>" for a b c d f g h i j]
  winapi_def [where w = "\<lparr>g_tracingLevel = a, wcerr = b, m_hwnd = c, calls = d,
     hotkeys = f, queue = g, quit = h, window_open = i, pending = j\<rparr>" for a b c d f g h i j]
  winapiFail_def [where w = "\<lparr>g_tracingLevel = a, wcerr = b, m_hwnd = c, calls = d,
     hotkeys = f, queue = g, quit = h, window_open = i, pending = j\<rparr>" for a b c d f g h i j]
  CALL_BOOL_WINAPI_def [where w = "\<lparr>g_tracingLevel = a, wcerr = b, m_hwnd = c, calls = d,
     hotkeys = f, queue = g, quit = h, window_open = i, pending = j\<rparr>" for a b c d f g h i j]
  CALL_HANDLE_WINAPI_def [where w = "\<lparr>g_tracingLevel = a, wcerr = b, m_hwnd = c, calls = d,
     hotkeys = f, queue = g, quit = h, window_open = i, pending = j\<rparr>" for a b c d f g h i j]
  GET_AND_RELEASE_HDC_def [where w = "\<lparr>g_tracingLevel = a, wcerr = b, m_hwnd = c, calls = d,
     hotkeys = f, queue = g, quit = h, window_open = i, pending = j\<rparr>" for a b c d f g h i j]
  GDIObjectDeleter_def [where w = "\<lparr>g_tracingLevel = a, wcerr = b, m_hwnd = c, calls = d,
     hotkeys = f, queue = g, quit = h, window_open = i, pending = j\<rparr>" for a b c d f g h i j]
  SELECT_RESTORE_OBJECT_def [where w = "\<lparr>g_tracingLevel = a, wcerr = b, m_hwnd = c, calls = d,
     hotkeys = f, queue = g, quit = h, window_open = i, pending = j\<rparr>" for a b c d f g h i j]
  captureScreen_def [where w = "\<lparr>g_tracingLevel = a, wcerr = b, m_hwnd = c, calls = d,
     hotkeys = f, queue = g, quit = h, window_open = i, pending = j\<rparr>" for a b c d f g h i j]
  onPaint_def [where w = "\<lparr>g_tracingLevel = a, wcerr = b, m_hwnd = c, calls = d,
     hotkeys = f, queue = g, quit = h, window_open = i, pending = j\<rparr>" for a b c d f g h i j]
  onHotKey_def [where w = "\<lparr>g_tracingLevel = a, wcerr = b, m_hwnd = c, calls = d,
     hotkeys = f, queue = g, quit = h, window_open = i, pending = j\<rparr>" for a b c d f g h i j]
  onKeyDown_def [where w = "\<lparr>g_tracingLevel = a, wcerr = b, m_hwnd = c, calls = d,
     hotkeys = f, queue = g, quit = h, window_open = i, pending = j\<rparr>" for a b c d f g h i j]
  TRACE1_def TRACE2_def NULL_def Let_def

subsection \<open>\<open>handleMessage\<close>, case by case\<close>

lemma WM_distinct:
  "WM_DESTROY \<noteq> WM_CREATE"
  "WM_PAINT \<noteq> WM_CREATE" "WM_PAINT \<noteq> WM_DESTROY"
  "WM_HOTKEY \<noteq> WM_CREATE" "WM_HOTKEY \<noteq> WM_DESTROY" "WM_HOTKEY \<noteq> WM_PAINT"
  "WM_KEYDOWN \<noteq> WM_CREATE" "WM_KEYDOWN \<noteq> WM_DESTROY" "WM_KEYDOWN \<noteq> WM_PAINT"
  "WM_KEYDOWN \<noteq> WM_HOTKEY"
  "WM_CLOSE \<noteq> WM_CREATE" "WM_CLOSE \<noteq> WM_DESTROY" "WM_CLOSE \<noteq> WM_PAINT"
  "WM_CLOSE \<noteq> WM_HOTKEY" "WM_CLOSE \<noteq> WM_KEYDOWN"
  by (simp_all add: WM_CREATE_def WM_DESTROY_def WM_PAINT_def WM_HOTKEY_def WM_KEYDOWN_def
        WM_CLOSE_def)

lemma handleMessage_WM_CREATE:
  "handleMessage os base WM_CREATE wp lp w =
     (let (m, wa) = winapi os GetModuleHandle w;
          (icon, wb) = winapi os (LoadIcon (val m) 1) wa;
          (_, wc) = winapi os (SendMessage (m_hwnd wb) WM_SETICON ICON_SMALL (word_of_int (val icon))) wb;
          (_, wd) = winapi os (SendMessage (m_hwnd wc) WM_SETICON ICON_BIG (word_of_int (val icon))) wc
      in CALL_BOOL_WINAPI os (RegisterHotKey (m_hwnd wd) HOTKEY_ID_F5 0 VK_F5) (\<lambda>_ we.
         CALL_BOOL_WINAPI os (RegisterHotKey (m_hwnd we) HOTKEY_ID_UP 0 VK_UP) (\<lambda>_ wz.
         (Returned 0, wz)) we) wd)"
  by (simp only: handleMessage_def if_True simp_thms)

lemma handleMessage_WM_DESTROY:
  "handleMessage os base WM_DESTROY wp lp w =
     (let wa = TRACE2 (Line [Txt ''received WM_DESTROY'']) w
      in CALL_BOOL_WINAPI os (UnregisterHotKey (m_hwnd wa) HOTKEY_ID_F5) (\<lambda>_ wb.
         CALL_BOOL_WINAPI os (UnregisterHotKey (m_hwnd wb) HOTKEY_ID_UP) (\<lambda>_ wc.
         let (_, wd) = winapi os (PostQuitMessage 0) wc
         in (Returned 0, wd)) wb) wa)"
  by (simp only: handleMessage_def WM_distinct if_True if_False simp_thms)

lemma handleMessage_WM_PAINT:
  "handleMessage os base WM_PAINT wp lp w =
     (case onPaint os w of
        (Aborted, wa) \<Rightarrow> (Aborted, wa)
      | (Returned _, wa) \<Rightarrow> (Returned 0, wa))"
  by (simp only: handleMessage_def WM_distinct if_True if_False simp_thms)

lemma handleMessage_WM_HOTKEY:
  "handleMessage os base WM_HOTKEY wp lp w =
     (case onHotKey os wp (LOWORD lp) (HIWORD lp) w of
        (Aborted, wa) \<Rightarrow> (Aborted, wa)
      | (Returned _, wa) \<Rightarrow> (Returned 0, wa))"
  by (simp only: handleMessage_def WM_distinct if_True if_False simp_thms)

lemma handleMessage_WM_KEYDOWN:
  "handleMessage os base WM_KEYDOWN wp lp w =
     (let (handled, wa) = onKeyDown os wp lp w
      in if handled then (Returned 0, wa) else base WM_KEYDOWN wp lp wa)"
  by (simp only: handleMessage_def WM_distinct if_True if_False simp_thms)

lemma handleMessage_other:
  "\<not> dedicated uMsg \<Longrightarrow> handleMessage os base uMsg wp lp w = base uMsg wp lp w"
  by (simp add: handleMessage_def dedicated_def)

lemma handleMessage_cases:
  obtains "uMsg = WM_CREATE" | "uMsg = WM_DESTROY" | "uMsg = WM_PAINT" | "uMsg = WM_HOTKEY"
    | "uMsg = WM_KEYDOWN" | "\<not> dedicated uMsg"
  by (auto simp: dedicated_def)



lemmas handler_simps =
  handleMessage_WM_CREATE [where w = "\<lparr>g_tracingLevel = a, wcerr = b, m_hwnd = c, calls = d,
     hotkeys = f, queue = g, quit = h, window_open = i, pending = j\<rparr>" for a b c d f g h i j]
  handleMessage_WM_DESTROY [where w = "\<lparr>g_tracingLevel = a, wcerr = b, m_hwnd = c, calls = d,
     hotkeys = f, queue = g, quit = h, window_open = i, pending = j\<rparr>" for a b c d f g h i j]
  BaseWindow_handleMessage_def [where w = "\<lparr>g_tracingLevel = a, wcerr = b, m_hwnd = c, calls = d,
     hotkeys = f, queue = g, quit = h, window_open = i, pending = j\<rparr>" for a b c d f g h i j]
  DestroyWindow_def [where w = "\<lparr>g_tracingLevel = a, wcerr = b, m_hwnd = c, calls = d,
     hotkeys = f, queue = g, quit = h, window_open = i, pending = j\<rparr>" for a b c d f g h i j]
  no_base_def

lemma capture_first_call:
  "\<exists>r cs. calls (snd (captureScreen os w)) = calls w @ (GetDC NULL, r) # cs"
  by (cases w) (simp add: run_simps)

subsection \<open>Startup\<close>

lemmas startup_simps =
  createWindow_def [where w = "\<lparr>g_tracingLevel = a, wcerr = b, m_hwnd = c, calls = d,
     hotkeys = f, queue = g, quit = h, window_open = i, pending = j\<rparr>" for a b c d f g h i j]
  wWinMain_def [where w = "\<lparr>g_tracingLevel = a, wcerr = b, m_hwnd = c, calls = d,
     hotkeys = f, queue = g, quit = h, window_open = i, pending = j\<rparr>" for a b c d f g h i j]
  WindowProc_def

lemma inbox_createWindow:
  "queue (snd (createWindow os cw w)) = queue w
   \<and> quit (snd (createWindow os cw w)) = quit w
   \<and> pending (snd (createWindow os cw w)) = pending w"
  by (cases w) (simp add: startup_simps handler_simps run_simps)

lemma wWinMain_exit:
  "wWinMain fuel os env hInstance nCmdShow w = Some (e, w') \<Longrightarrow>
     (if hInstance = val (os (length (calls w)) GetModuleHandle)
      then e = ExitCode 0 else e = AssertionFailure)"
  by (auto simp: wWinMain_def Let_def split_beta winapi_plain plain_def
           split: if_splits option.splits)

lemma wWinMain_GetMessage_fails:
  assumes "hInstance = val (os (length (calls w)) GetModuleHandle)"
    and "queue w = []" "quit w = None" "pending w = GetMessageFails # rest"
  shows "\<exists>w'. wWinMain (Suc fuel) os env hInstance nCmdShow w = Some (ExitCode 0, w')"
proof -
  define cw where "cw = \<lparr>m_lpWindowName = ''Game TODO List'', m_x = 200, m_y = 200,
                     m_nWidth = 400, m_nHeight = 400, m_dwStyle = WS_OVERLAPPEDWINDOW\<rparr>"
  define wb where "wb = (snd (winapi os GetModuleHandle w))\<lparr>g_tracingLevel := envIntOr env ''TRACE'' 1\<rparr>"
  define wc where "wc = snd (createWindow os cw wb)"
  define we where "we = snd (winapi os (ShowWindow (m_hwnd (TRACE2 (Line [Txt ''Calling ShowWindow'']) wc)) nCmdShow)
                              (TRACE2 (Line [Txt ''Calling ShowWindow'']) wc))"
  have b: "queue wb = [] \<and> quit wb = None \<and> pending wb = GetMessageFails # rest"
    using assms by (simp add: wb_def winapi_fields winapi_plain plain_def)
  have c: "queue wc = [] \<and> quit wc = None \<and> pending wc = GetMessageFails # rest"
    using b inbox_createWindow [of os cw wb] by (simp add: wc_def)
  have e: "queue we = [] \<and> quit we = None \<and> pending we = GetMessageFails # rest"
    using c by (simp add: we_def winapi_fields winapi_plain plain_def TRACE2_def TRACE_def)
  have loop: "message_loop (Suc fuel) os we = Some (we\<lparr>pending := rest\<rparr>)"
    using e by (simp add: GetMessage_def)
  have "wWinMain (Suc fuel) os env hInstance nCmdShow w =
          (case message_loop (Suc fuel) os we of
             None \<Rightarrow> None
           | Some wz \<Rightarrow> Some (ExitCode 0, TRACE2 (Line [Txt ''Returning from main'']) wz))"
    using assms(1)
    by (simp add: wWinMain_def Let_def split_beta winapi_plain plain_def
          we_def wc_def wb_def cw_def del: message_loop.simps)
  with loop show ?thesis by simp
qed

subsection \<open>What the handlers and the loop leave as it was\<close>

lemma quiet_refl: "quiet w w"
  by (simp add: quiet_def)

lemma quiet_trans: "quiet a b \<Longrightarrow> quiet b c \<Longrightarrow> quiet a c"
  by (simp add: quiet_def)

lemma frame_quiet: "frame w w' \<Longrightarrow> quiet w w'"
  by (simp add: frame_def quiet_def)

lemma frame_TRACE2: "frame w (TRACE2 l w)"
  by (simp add: TRACE2_def frame_TRACE)

lemma frame_onPaint: "frame w (snd (onPaint os w))"
  by (cases w) (simp add: run_simps frame_def)

lemma frame_onHotKey: "frame w (snd (onHotKey os i m v w))"
  unfolding onHotKey_def Let_def
  using frame_trans [OF frame_TRACE2 frame_captureScreen] frame_TRACE2
  by simp

lemma frame_default:
  "uMsg \<noteq> WM_CLOSE \<Longrightarrow> frame w (snd (BaseWindow_handleMessage os uMsg wp lp w))"
  by (cases w) (simp add: handler_simps run_simps frame_def)

lemma quiet_default: "quiet w (snd (BaseWindow_handleMessage os uMsg wp lp w))"
  by (cases w) (simp add: handler_simps run_simps quiet_def)

lemma quiet_onKeyDown: "quiet w (snd (onKeyDown os wp lp w))"
  by (cases w) (simp add: run_simps quiet_def)

lemma snd_outcome_case:
  "snd (case p of (Aborted, wa) \<Rightarrow> (Aborted, wa) | (Returned u, wa) \<Rightarrow> (Returned x, wa)) = snd p"
  by (auto split: prod.split outcome.split)

lemma quiet_WindowProc: "quiet w (snd (WindowProc os uMsg wp lp w))"
proof (cases uMsg rule: handleMessage_cases)
  case 1
  then show ?thesis
    by (cases w) (simp add: WindowProc_def handler_simps run_simps quiet_def)
next
  case 2
  then show ?thesis
    by (cases w) (simp add: WindowProc_def handler_simps run_simps quiet_def)
next
  case 3
  then show ?thesis
    using frame_quiet [OF frame_onPaint [of w os]]
    by (simp add: WindowProc_def handleMessage_WM_PAINT snd_outcome_case)
next
  case 4
  then show ?thesis
    using frame_quiet [OF frame_onHotKey [of w os wp "LOWORD lp" "HIWORD lp"]]
    by (simp add: WindowProc_def handleMessage_WM_HOTKEY snd_outcome_case)
next
  case 5
  have "quiet w (snd (BaseWindow_handleMessage os WM_KEYDOWN wp lp (snd (onKeyDown os wp lp w))))"
    using quiet_onKeyDown quiet_default by (blast intro: quiet_trans)
  with 5 quiet_onKeyDown [of w os wp lp] show ?thesis
    by (simp add: WindowProc_def handleMessage_WM_KEYDOWN split_beta)
next
  case 6
  then show ?thesis
    by (simp add: WindowProc_def handleMessage_other quiet_default)
qed

lemma frame_WindowProc:
  assumes "harmless \<lparr>hwnd = h, message = uMsg, wParam = wp, lParam = lp\<rparr>"
  shows "frame w (snd (WindowProc os uMsg wp lp w))"
proof (cases uMsg rule: handleMessage_cases)
  case 1
  with assms show ?thesis by (simp add: harmless_def)
next
  case 2
  with assms show ?thesis by (simp add: harmless_def)
next
  case 3
  then show ?thesis
    using frame_onPaint [of w os]
    by (simp add: WindowProc_def handleMessage_WM_PAINT snd_outcome_case)
next
  case 4
  then show ?thesis
    using frame_onHotKey [of w os wp "LOWORD lp" "HIWORD lp"]
    by (simp add: WindowProc_def handleMessage_WM_HOTKEY snd_outcome_case)
next
  case 5
  with assms have q: "wp \<noteq> KEY_Q" by (simp add: harmless_def)
  have "frame w (snd (BaseWindow_handleMessage os WM_KEYDOWN wp lp (TRACE2 l w)))" for l
  proof (rule frame_trans [OF frame_TRACE2])
    show "frame (TRACE2 l w) (snd (BaseWindow_handleMessage os WM_KEYDOWN wp lp (TRACE2 l w)))"
      by (rule frame_default) (simp add: WM_KEYDOWN_def WM_CLOSE_def)
  qed
  with 5 q show ?thesis
    by (simp add: WindowProc_def handleMessage_WM_KEYDOWN onKeyDown_def Let_def)
next
  case 6
  moreover from assms have "uMsg \<noteq> WM_CLOSE" by (simp add: harmless_def)
  ultimately show ?thesis
    by (simp add: WindowProc_def handleMessage_other frame_default)
qed

lemma quiet_DispatchMessage: "quiet w (DispatchMessage os m w)"
  by (simp add: DispatchMessage_def quiet_WindowProc quiet_refl)

lemma quiet_winapi: "quiet w (snd (winapi os c w))"
  by (simp add: quiet_def winapi_fields)

lemma quiet_GetMessage: "GetMessage w = Some (r, m, wa) \<Longrightarrow> quiet w wa"
  by (auto simp: GetMessage_def quiet_def split: list.splits option.splits input.splits)

lemma quiet_message_loop: "message_loop fuel os w = Some w' \<Longrightarrow> quiet w w'"
proof (induction fuel arbitrary: w)
  case 0
  then show ?case by simp
next
  case (Suc n)
  from Suc.prems obtain r m wa where g: "GetMessage w = Some (r, m, wa)"
    by (auto split: option.splits)
  show ?case
  proof (cases "r > 0")
    case True
    with Suc.prems g have
      "message_loop n os (DispatchMessage os m (snd (winapi os (TranslateMessage m) wa))) = Some w'"
      by simp
    then have "quiet (DispatchMessage os m (snd (winapi os (TranslateMessage m) wa))) w'"
      by (rule Suc.IH)
    then show ?thesis
      using quiet_GetMessage [OF g] quiet_winapi quiet_DispatchMessage
      by (blast intro: quiet_trans)
  next
    case False
    with Suc.prems g have "w' = wa" by simp
    with quiet_GetMessage [OF g] show ?thesis by simp
  qed
qed

lemma quiet_createWindow: "quiet w (snd (createWindow os cw w))"
  by (cases w) (simp add: startup_simps handler_simps run_simps quiet_def)

lemma quiet_wWinMain:
  assumes "wWinMain fuel os env hInstance nCmdShow w = Some (ExitCode c, w')"
  shows "g_tracingLevel w' = envIntOr env ''TRACE'' 1
         \<and> (envIntOr env ''TRACE'' 1 \<le> 0 \<longrightarrow> wcerr w' = wcerr w)"
proof -
  define cw where "cw = \<lparr>m_lpWindowName = ''Game TODO List'', m_x = 200, m_y = 200,
                     m_nWidth = 400, m_nHeight = 400, m_dwStyle = WS_OVERLAPPEDWINDOW\<rparr>"
  define wb where "wb = (snd (winapi os GetModuleHandle w))\<lparr>g_tracingLevel := envIntOr env ''TRACE'' 1\<rparr>"
  define wc where "wc = snd (createWindow os cw wb)"
  define we where "we = snd (winapi os (ShowWindow (m_hwnd (TRACE2 (Line [Txt ''Calling ShowWindow'']) wc)) nCmdShow)
                              (TRACE2 (Line [Txt ''Calling ShowWindow'']) wc))"
  from assms obtain wz where loop: "message_loop fuel os we = Some wz"
    and w': "w' = TRACE2 (Line [Txt ''Returning from main'']) wz"
    by (auto simp: wWinMain_def Let_def split_beta we_def wc_def wb_def cw_def
             split: if_splits option.splits)
  have b: "g_tracingLevel wb = envIntOr env ''TRACE'' 1" "wcerr wb = wcerr w"
    by (simp_all add: wb_def winapi_fields)
  have "quiet wb wc" by (simp add: wc_def quiet_createWindow)
  moreover have "quiet wc we"
    unfolding we_def using frame_quiet [OF frame_TRACE2] quiet_winapi
    by (blast intro: quiet_trans)
  moreover have "quiet we wz" using loop by (rule quiet_message_loop)
  moreover have "quiet wz w'" unfolding w' by (rule frame_quiet [OF frame_TRACE2])
  ultimately have "quiet wb w'" by (blast intro: quiet_trans)
  with b show ?thesis by (simp add: quiet_def)
qed

section \<open>What is reported\<close>

lemma reported_append:
  "reported l cs ds \<Longrightarrow> reported l cs' ds' \<Longrightarrow> reported l (cs @ cs') (ds @ ds')"
  unfolding reported_def by (fastforce split: diag.splits)

lemma reportsI:
  assumes "g_tracingLevel w' = g_tracingLevel w" and "calls w' = calls w @ cs"
    and "wcerr w' = wcerr w @ ds" and "reported (g_tracingLevel w) cs ds"
  shows "reports w w'"
  using assms by (simp add: reports_def new_calls_def new_output_def)

lemma reportsD:
  assumes "reports w w'"
  shows "g_tracingLevel w' = g_tracingLevel w"
    and "calls w' = calls w @ new_calls w w'"
    and "wcerr w' = wcerr w @ new_output w w'"
    and "reported (g_tracingLevel w) (new_calls w w') (new_output w w')"
proof -
  from assms show "g_tracingLevel w' = g_tracingLevel w"
    and "reported (g_tracingLevel w) (new_calls w w') (new_output w w')"
    by (simp_all add: reports_def)
  from assms have "take (length (calls w)) (calls w') = calls w"
    and "take (length (wcerr w)) (wcerr w') = wcerr w"
    by (simp_all add: reports_def)
  then show "calls w' = calls w @ new_calls w w'" and "wcerr w' = wcerr w @ new_output w w'"
    unfolding new_calls_def new_output_def by (metis append_take_drop_id)+
qed

lemma reports_refl: "reports w w"
  by (rule reportsI [of _ _ "[]" "[]"]) (simp_all add: reported_def)

lemma new_trans:
  assumes "reports a b" and "reports b c"
  shows "new_calls a c = new_calls a b @ new_calls b c"
    and "new_output a c = new_output a b @ new_output b c"
proof -
  have "calls c = calls a @ (new_calls a b @ new_calls b c)"
    using reportsD(2) [OF assms(1)] reportsD(2) [OF assms(2)] by simp
  then show "new_calls a c = new_calls a b @ new_calls b c"
    by (simp add: new_calls_def [of a c])
  have "wcerr c = wcerr a @ (new_output a b @ new_output b c)"
    using reportsD(3) [OF assms(1)] reportsD(3) [OF assms(2)] by simp
  then show "new_output a c = new_output a b @ new_output b c"
    by (simp add: new_output_def [of a c])
qed

lemma reports_trans:
  assumes "reports a b" and "reports b c"
  shows "reports a c"
proof (rule reportsI)
  show "g_tracingLevel c = g_tracingLevel a"
    using reportsD(1) [OF assms(1)] reportsD(1) [OF assms(2)] by simp
  show "calls c = calls a @ (new_calls a b @ new_calls b c)"
    using reportsD(2) [OF assms(1)] reportsD(2) [OF assms(2)] by simp
  show "wcerr c = wcerr a @ (new_output a b @ new_output b c)"
    using reportsD(3) [OF assms(1)] reportsD(3) [OF assms(2)] by simp
  show "reported (g_tracingLevel a) (new_calls a b @ new_calls b c) (new_output a b @ new_output b c)"
    using reportsD(4) [OF assms(1)] reportsD(4) [OF assms(2)] reportsD(1) [OF assms(1)]
    by (simp add: reported_append)
qed

lemma failure_reported_trans:
  assumes "reports a b" and "reports b c"
  shows "failure_reported a c \<longleftrightarrow> failure_reported a b \<or> failure_reported b c"
  by (auto simp: failure_reported_def new_trans [OF assms])

lemma silent_winapi:
  assumes "\<not> checked c \<or> val (fst (winapi os c w)) \<noteq> 0"
  shows "reports w (snd (winapi os c w)) \<and> \<not> failure_reported w (snd (winapi os c w))"
proof -
  have "reported (g_tracingLevel w) [(c, fst (winapi os c w))] []"
    using assms by (auto simp: reported_def)
  then have "reports w (snd (winapi os c w))"
    by (intro reportsI [of _ _ "[(c, fst (winapi os c w))]" "[]"]) (simp_all add: winapi_fields)
  then show ?thesis
    by (simp add: failure_reported_def new_output_def winapi_fields)
qed

lemma silent_TRACE2:
  "reports w (TRACE2 (Line l) w) \<and> \<not> failure_reported w (TRACE2 (Line l) w)"
proof (cases "2 \<le> g_tracingLevel w")
  case True
  then have "reports w (TRACE2 (Line l) w)"
    by (intro reportsI [of _ _ "[]" "[Line l]"]) (simp_all add: TRACE2_def TRACE_def reported_def)
  then show ?thesis
    using True by (simp add: failure_reported_def new_output_def TRACE2_def TRACE_def is_report_def)
next
  case False
  then have "TRACE2 (Line l) w = w" by (simp add: TRACE2_def TRACE_def)
  then show ?thesis
    by (simp add: reports_refl failure_reported_def new_output_def)
qed

lemma checks_Returned: "checks w (Returned x, w)"
  by (simp add: checks_def reports_refl failure_reported_def new_output_def)

lemma checks_before:
  assumes "reports w wa \<and> \<not> failure_reported w wa" and "checks wa p"
  shows "checks w p"
proof -
  from assms have r: "reports w wa" "reports wa (snd p)" by (simp_all add: checks_def)
  have "g_tracingLevel wa = g_tracingLevel w" using r(1) by (rule reportsD(1))
  with assms failure_reported_trans [OF r] reports_trans [OF r] show ?thesis
    by (simp add: checks_def)
qed

lemma checks_after:
  assumes "checks w p" and "reports (snd p) w' \<and> \<not> failure_reported (snd p) w'"
  shows "checks w (fst p, w')"
proof -
  from assms have r: "reports w (snd p)" "reports (snd p) w'" by (simp_all add: checks_def)
  with assms failure_reported_trans [OF r] reports_trans [OF r] show ?thesis
    by (simp add: checks_def)
qed

lemma checks_fail:
  assumes "examined c" and "val (fst (winapi os c w)) = 0"
  shows "checks w (winapiFail c (snd (winapi os c w)))"
proof (cases "1 \<le> g_tracingLevel w")
  case True
  with assms have "reports w (snd (winapiFail c (snd (winapi os c w)) :: 'a outcome \<times> world))"
    by (intro reportsI [of _ _ "[(c, fst (winapi os c w))]" "[ApiFailure c]"])
       (simp_all add: winapiFail_def TRACE1_def TRACE_def winapi_fields reported_def)
  then show ?thesis
    using True
    by (simp add: checks_def failure_reported_def new_output_def winapiFail_def TRACE1_def
          TRACE_def winapi_fields is_report_def)
next
  case False
  with assms have "reports w (snd (winapiFail c (snd (winapi os c w)) :: 'a outcome \<times> world))"
    by (intro reportsI [of _ _ "[(c, fst (winapi os c w))]" "[]"])
       (simp_all add: winapiFail_def TRACE1_def TRACE_def winapi_fields reported_def)
  then show ?thesis
    using False by (simp add: checks_def)
qed

lemma checks_CALL_BOOL:
  assumes "examined c" and "\<And>r wa. checks wa (rest r wa)"
  shows "checks w (CALL_BOOL_WINAPI os c rest w)"
proof (cases "val (fst (winapi os c w)) = 0")
  case True
  with checks_fail [OF assms(1) True] show ?thesis
    by (simp add: CALL_BOOL_WINAPI_def split_beta)
next
  case False
  then have "checks w (rest (fst (winapi os c w)) (snd (winapi os c w)))"
    by (intro checks_before [OF silent_winapi assms(2)]) simp
  with False show ?thesis
    by (simp add: CALL_BOOL_WINAPI_def split_beta)
qed

lemma checks_CALL_HANDLE:
  assumes "examined c" and "\<And>r wa. checks wa (rest r wa)"
  shows "checks w (CALL_HANDLE_WINAPI os c rest w)"
proof (cases "val (fst (winapi os c w)) = 0")
  case True
  with checks_fail [OF assms(1) True] show ?thesis
    by (simp add: CALL_HANDLE_WINAPI_def split_beta NULL_def)
next
  case False
  then have "checks w (rest (fst (winapi os c w)) (snd (winapi os c w)))"
    by (intro checks_before [OF silent_winapi assms(2)]) simp
  with False show ?thesis
    by (simp add: CALL_HANDLE_WINAPI_def split_beta NULL_def)
qed

lemma checks_winapi_then:
  assumes "\<not> checked c" and "\<And>r wa. checks wa (k r wa)"
  shows "checks w (case winapi os c w of (r, wa) \<Rightarrow> k r wa)"
proof -
  have "checks w (k (fst (winapi os c w)) (snd (winapi os c w)))"
    by (intro checks_before [OF silent_winapi assms(2)]) (simp add: assms(1))
  then show ?thesis by (simp add: split_beta)
qed

lemma checks_then_winapi:
  assumes "\<not> checked c" and "checks w p"
  shows "checks w (fst p, snd (winapi os c (snd p)))"
  by (rule checks_after [OF assms(2) silent_winapi]) (simp add: assms(1))

lemma checks_GDIObjectDeleter:
  assumes "\<And>wa. checks wa (scope wa)"
  shows "checks w (GDIObjectDeleter os obj scope w)"
proof -
  have "checks w (fst (scope w), snd (winapi os (DeleteObject obj) (snd (scope w))))"
    by (intro checks_then_winapi assms) (simp add: checked_def)
  then show ?thesis
    by (simp add: GDIObjectDeleter_def split_beta)
qed

lemma checks_GET_AND_RELEASE_HDC:
  assumes "\<And>hdc wa. checks wa (scope hdc wa)"
  shows "checks w (GET_AND_RELEASE_HDC os h scope w)"
  unfolding GET_AND_RELEASE_HDC_def
proof (rule checks_CALL_HANDLE)
  show "examined (GetDC h)" by (simp add: examined_def checked_def)
next
  fix r wa
  have "checks wa (fst (scope (val r) wa),
                   snd (winapi os (ReleaseDC h (val r)) (snd (scope (val r) wa))))"
    by (intro checks_then_winapi assms) (simp add: checked_def)
  then show "checks wa (let hdc = val r;
              (res, w2) = scope hdc wa;
              (_, w3) = winapi os (ReleaseDC h hdc) w2
          in (res, w3))"
    by (simp add: split_beta Let_def)
qed

lemma checks_SELECT_RESTORE_OBJECT:
  assumes "\<And>wa. checks wa (scope wa)"
  shows "checks w (SELECT_RESTORE_OBJECT os hdc obj scope w)"
  unfolding SELECT_RESTORE_OBJECT_def
proof (rule checks_CALL_HANDLE)
  show "examined (SelectObject hdc obj)" by (simp add: examined_def)
next
  fix r wa
  have "checks wa (fst (scope wa),
                   snd (winapi os (SelectObject hdc (val r)) (snd (scope wa))))"
    by (intro checks_then_winapi assms) (simp add: checked_def)
  then show "checks wa (let previous = val r;
              (res, w2) = scope wa;
              (_, w3) = winapi os (SelectObject hdc previous) w2
          in (res, w3))"
    by (simp add: split_beta Let_def)
qed

lemmas checks_intros = checks_GET_AND_RELEASE_HDC checks_CALL_HANDLE checks_CALL_BOOL
  checks_GDIObjectDeleter checks_SELECT_RESTORE_OBJECT checks_winapi_then checks_Returned

lemma checks_captureScreen: "checks w (captureScreen os w)"
  unfolding captureScreen_def Let_def
  by (intro checks_intros) (simp_all add: examined_def checked_def)

lemma checks_TRACE2:
  "checks (TRACE2 (Line l) w) p \<Longrightarrow> checks w p"
  by (rule checks_before [OF silent_TRACE2])

lemma checks_Returned_any: "checks w (Returned u, x) \<Longrightarrow> checks w (Returned v, x)"
  by (simp add: checks_def)

lemma checks_case:
  "checks w p \<Longrightarrow>
   checks w (case p of (Aborted, wa) \<Rightarrow> (Aborted, wa) | (Returned u, wa) \<Rightarrow> (Returned x, wa))"
  by (cases p; cases "fst p") (auto simp: checks_def)

lemma checks_finally:
  assumes "\<And>wd. \<not> checked (k wd)" and "checks w p"
  shows "checks w (case p of (res, wd) \<Rightarrow>
                     case res of Aborted \<Rightarrow> (Aborted, wd)
                     | Returned u \<Rightarrow> (Returned x, snd (winapi os (k wd) wd)))"
proof (cases p)
  case (Pair res wd)
  show ?thesis
  proof (cases res)
    case Aborted
    with Pair assms(2) show ?thesis by (simp add: checks_def)
  next
    case (Returned u)
    have "checks w (fst p, snd (winapi os (k wd) (snd p)))"
      by (rule checks_then_winapi [OF assms(1) assms(2)])
    with Pair Returned show ?thesis by (simp add: checks_def)
  qed
qed

lemma checks_onPaint: "checks w (onPaint os w)"
  unfolding onPaint_def Let_def
proof (rule checks_CALL_HANDLE)
  show "examined (BeginPaint (m_hwnd w))" by (simp add: examined_def checked_def)
next
  fix r wa
  show "checks wa
          (case winapi os (FillRect (val r) (out_rect r) (COLOR_WINDOW + 1)) wa of
             (uu, wb) \<Rightarrow>
               case winapi os (GetStockObject SYSTEM_FONT) wb of
                 (f, wc) \<Rightarrow>
                   case SELECT_RESTORE_OBJECT os (val r) (val f)
                          (CALL_BOOL_WINAPI os (TextOut (val r) 10 10 ''Sample text'' 11)
                             (\<lambda>uu we. (Returned (), we))) wc of
                     (res, wd) \<Rightarrow>
                       case res of Aborted \<Rightarrow> (Aborted, wd)
                       | Returned uu \<Rightarrow> (Returned (), snd (winapi os (EndPaint (m_hwnd wd)) wd)))"
  proof (intro checks_winapi_then)
    show "\<not> checked (FillRect (val r) (out_rect r) (COLOR_WINDOW + 1))"
      by (simp add: checked_def)
    fix f :: ret and wc :: world
    show "\<not> checked (GetStockObject SYSTEM_FONT)" by (simp add: checked_def)
    show "checks wc
            (case SELECT_RESTORE_OBJECT os (val r) (val f)
                    (CALL_BOOL_WINAPI os (TextOut (val r) 10 10 ''Sample text'' 11)
                       (\<lambda>uu we. (Returned (), we))) wc of
               (res, wd) \<Rightarrow>
                 case res of Aborted \<Rightarrow> (Aborted, wd)
                 | Returned uu \<Rightarrow> (Returned (), snd (winapi os (EndPaint (m_hwnd wd)) wd)))"
      by (intro checks_finally checks_intros) (simp_all add: checked_def examined_def)
  qed
qed

lemma checks_onHotKey: "checks w (onHotKey os i m v w)"
proof -
  have "checks (TRACE2 (Line l) w)
          (if i = word_of_int HOTKEY_ID_F5 then captureScreen os (TRACE2 (Line l) w)
           else (Returned (), TRACE2 (Line l) w))" for l
    by (simp add: checks_captureScreen checks_Returned)
  then show ?thesis
    unfolding onHotKey_def Let_def by (rule checks_TRACE2)
qed

lemma checks_WM_CREATE: "checks w (handleMessage os base WM_CREATE wp lp w)"
  unfolding handleMessage_WM_CREATE Let_def
  by (intro checks_intros) (simp_all add: checked_def examined_def)

lemma checks_WM_DESTROY: "checks w (handleMessage os base WM_DESTROY wp lp w)"
  unfolding handleMessage_WM_DESTROY Let_def
proof (rule checks_TRACE2 [where l = "[Txt ''received WM_DESTROY'']"])
  show "checks (TRACE2 (Line [Txt ''received WM_DESTROY'']) w)
     (CALL_BOOL_WINAPI os
       (UnregisterHotKey (m_hwnd (TRACE2 (Line [Txt ''received WM_DESTROY'']) w)) HOTKEY_ID_F5)
       (\<lambda>_ wb.
           CALL_BOOL_WINAPI os (UnregisterHotKey (m_hwnd wb) HOTKEY_ID_UP)
            (\<lambda>_ wc. case winapi os (PostQuitMessage 0) wc of (_, wd) \<Rightarrow> (Returned 0, wd)) wb)
       (TRACE2 (Line [Txt ''received WM_DESTROY'']) w))"
    by (intro checks_intros) (simp_all add: checked_def examined_def)
qed

lemma checks_handleMessage:
  assumes "uMsg \<in> {WM_CREATE, WM_DESTROY, WM_PAINT, WM_HOTKEY}"
  shows "checks w (handleMessage os base uMsg wp lp w)"
proof -
  from assms consider "uMsg = WM_CREATE" | "uMsg = WM_DESTROY" | "uMsg = WM_PAINT"
    | "uMsg = WM_HOTKEY" by blast
  then show ?thesis
  proof cases
    case 1
    then show ?thesis by (simp only: checks_WM_CREATE)
  next
    case 2
    then show ?thesis by (simp only: checks_WM_DESTROY)
  next
    case 3
    then show ?thesis
      by (simp only: handleMessage_WM_PAINT checks_case [OF checks_onPaint])
  next
    case 4
    then show ?thesis
      by (simp only: handleMessage_WM_HOTKEY checks_case [OF checks_onHotKey])
  qed
qed

lemma reports_update:
  "reports w w' \<Longrightarrow> reports w (w'\<lparr>window_open := b\<rparr>)"
  "reports w w' \<Longrightarrow> reports w (w'\<lparr>m_hwnd := h, window_open := b\<rparr>)"
  "reports (w\<lparr>m_hwnd := h, window_open := b\<rparr>) w' \<Longrightarrow> reports w w'"
  by (simp_all add: reports_def new_calls_def new_output_def)

lemma reports_winapi: "\<not> checked c \<Longrightarrow> reports w (snd (winapi os c w))"
  using silent_winapi [of c os w] by simp

lemma reports_TRACE2: "reports w (TRACE2 (Line l) w)"
  using silent_TRACE2 by simp

lemma reports_default: "reports w (snd (BaseWindow_handleMessage os uMsg wp lp w))"
proof -
  let ?wa = "snd (winapi os (DefWindowProc (m_hwnd w) uMsg wp lp) w)"
  have a: "reports w ?wa" by (rule reports_winapi) (simp add: checked_def)
  have "reports ?wa (snd (handleMessage os no_base WM_DESTROY 0 0 ?wa))"
    using checks_WM_DESTROY [of ?wa os no_base 0 0] by (simp add: checks_def)
  then have "reports ?wa (DestroyWindow os ?wa)"
    unfolding DestroyWindow_def by (rule reports_update)
  with a have b: "reports w (DestroyWindow os ?wa)" by (rule reports_trans)
  show ?thesis
  proof (cases "uMsg = WM_CLOSE")
    case True
    with b show ?thesis by (simp add: BaseWindow_handleMessage_def split_beta)
  next
    case False
    with a show ?thesis by (simp add: BaseWindow_handleMessage_def split_beta)
  qed
qed

lemma reports_onKeyDown: "reports w (snd (onKeyDown os wp lp w))"
proof -
  let ?wa = "TRACE2 (Line [Txt ''onKeyDown:'', Txt '' wParam='', Hex (unat wp),
                           Txt '' lParam='', Hex (unat lp)]) w"
  let ?wb = "TRACE2 (Line [Txt ''Saw Q keypress.'']) ?wa"
  let ?wc = "snd (winapi os (PostMessage (m_hwnd ?wb) WM_CLOSE 0 0) ?wb)"
  have a: "reports w ?wa" by (rule reports_TRACE2)
  have "reports ?wa ?wb" by (rule reports_TRACE2)
  moreover have "reports ?wb ?wc" by (rule reports_winapi) (simp add: checked_def)
  ultimately have c: "reports w ?wc" using a by (blast intro: reports_trans)
  show ?thesis
  proof (cases "wp = KEY_Q")
    case True
    with c show ?thesis by (simp add: onKeyDown_def Let_def split_beta)
  next
    case False
    with a show ?thesis by (simp add: onKeyDown_def Let_def split_beta)
  qed
qed

lemma reports_WindowProc: "reports w (snd (WindowProc os uMsg wp lp w))"
proof (cases uMsg rule: handleMessage_cases)
  case 5
  have "reports w (snd (BaseWindow_handleMessage os WM_KEYDOWN wp lp (snd (onKeyDown os wp lp w))))"
    using reports_onKeyDown reports_default by (rule reports_trans)
  with 5 reports_onKeyDown [of w os wp lp] show ?thesis
    by (simp add: WindowProc_def handleMessage_WM_KEYDOWN split_beta)
next
  case 6
  then show ?thesis
    by (simp add: WindowProc_def handleMessage_other reports_default)
next
  case 1
  then show ?thesis
    using checks_handleMessage [of uMsg w os "BaseWindow_handleMessage os" wp lp]
    by (simp add: WindowProc_def checks_def)
next
  case 2
  then show ?thesis
    using checks_handleMessage [of uMsg w os "BaseWindow_handleMessage os" wp lp]
    by (simp add: WindowProc_def checks_def)
next
  case 3
  then show ?thesis
    using checks_handleMessage [of uMsg w os "BaseWindow_handleMessage os" wp lp]
    by (simp add: WindowProc_def checks_def)
next
  case 4
  then show ?thesis
    using checks_handleMessage [of uMsg w os "BaseWindow_handleMessage os" wp lp]
    by (simp add: WindowProc_def checks_def)
qed


lemma reports_DispatchMessage: "reports w (DispatchMessage os m w)"
  by (simp add: DispatchMessage_def reports_WindowProc reports_refl)

lemma reports_GetMessage: "GetMessage w = Some (r, m, wa) \<Longrightarrow> reports w wa"
  by (auto simp: GetMessage_def reports_def new_calls_def new_output_def reported_def
           split: list.splits option.splits input.splits)





subsection \<open>The loop, message by message\<close>

lemma ready_frame: "frame w w' \<Longrightarrow> ready h w \<Longrightarrow> ready h w'"
  by (simp add: frame_def ready_def)

lemma WM_QUIT_distinct: "WM_KEYDOWN \<noteq> WM_QUIT" "WM_CLOSE \<noteq> WM_QUIT"
  by (simp_all add: WM_KEYDOWN_def WM_CLOSE_def WM_QUIT_def)

lemma WM_CLOSE_not_dedicated: "\<not> dedicated WM_CLOSE"
  by (simp add: dedicated_def WM_distinct)

lemma harmless_step:
  assumes "ready h w" and "pending w = Deliver m # ps" and "harmless m"
  shows "\<exists>w2. (\<forall>n. message_loop (Suc n) os w = message_loop n os w2)
              \<and> ready h w2 \<and> pending w2 = ps \<and> reports w w2"
proof -
  define wa where "wa = w\<lparr>pending := ps\<rparr>"
  define wb where "wb = snd (winapi os (TranslateMessage m) wa)"
  define w2 where "w2 = DispatchMessage os m wb"
  have g: "GetMessage w = Some (1, m, wa)"
    using assms by (simp add: GetMessage_def ready_def harmless_def wa_def)
  have a: "ready h wa" "pending wa = ps"
    using assms(1) by (simp_all add: ready_def wa_def)
  have ab: "frame wa wb"
    unfolding wb_def by (rule frame_winapi) (simp add: plain_def)
  have h: "harmless \<lparr>hwnd = hwnd m, message = message m, wParam = wParam m, lParam = lParam m\<rparr>"
    using assms(3) by (simp add: harmless_def)
  have b2: "frame wb w2"
    unfolding w2_def DispatchMessage_def
    using frame_WindowProc [OF h, of wb os] frame_refl [of wb] by simp
  have a2: "frame wa w2"
    using ab b2 by (rule frame_trans)
  have "ready h w2" using a2 a(1) by (rule ready_frame)
  moreover have "pending w2 = ps" using a2 a(2) by (simp add: frame_def)
  moreover have "\<forall>n. message_loop (Suc n) os w = message_loop n os w2"
    using g by (simp add: wb_def w2_def)
  moreover have "reports w w2"
  proof -
    have "reports w wa" using g by (rule reports_GetMessage)
    moreover have "reports wa wb"
      unfolding wb_def by (rule reports_winapi) (simp add: checked_def)
    moreover have "reports wb w2"
      unfolding w2_def by (rule reports_DispatchMessage)
    ultimately show ?thesis by (blast intro: reports_trans)
  qed
  ultimately show ?thesis by blast
qed

lemma harmless_run:
  assumes "\<forall>m \<in> set pre. harmless m"
  shows "ready h w \<Longrightarrow> pending w = map Deliver pre @ tail \<Longrightarrow>
         \<exists>w2. (\<forall>n. message_loop (length pre + n) os w = message_loop n os w2)
              \<and> ready h w2 \<and> pending w2 = tail \<and> reports w w2"
  using assms
proof (induction pre arbitrary: w)
  case Nil
  then show ?case by (auto intro: reports_refl)
next
  case (Cons m pre)
  from Cons.prems have p: "pending w = Deliver m # (map Deliver pre @ tail)" and hm: "harmless m"
    by simp_all
  from harmless_step [OF Cons.prems(1) p hm, of os] obtain w1 where
    s: "\<forall>n. message_loop (Suc n) os w = message_loop n os w1"
    and r1: "ready h w1" and p1: "pending w1 = map Deliver pre @ tail"
    and g1: "reports w w1"
    by blast
  from Cons.prems(3) have hs: "\<forall>m \<in> set pre. harmless m" by simp
  from Cons.IH [OF r1 p1 hs] obtain w2 where
    t: "\<forall>n. message_loop (length pre + n) os w1 = message_loop n os w2"
    and r2: "ready h w2" and p2: "pending w2 = tail"
    and g2: "reports w1 w2"
    by blast
  have "\<forall>n. message_loop (length (m # pre) + n) os w = message_loop n os w2"
    using s t by simp
  with r2 p2 reports_trans [OF g1 g2] show ?case by blast
qed

lemma quit_run:
  assumes "succeeds os" and "ready h w"
    and "pending w = Deliver (key_Q_down h lp) # rest"
  shows "\<exists>w'. message_loop (Suc (Suc (Suc 0))) os w = Some w'
              \<and> \<not> window_open w' \<and> hotkeys w' = [] \<and> pending w' = rest
              \<and> take (length (calls w)) (calls w') = calls w
              \<and> map fst (new_calls w w') =
                  [TranslateMessage (key_Q_down h lp), PostMessage h WM_CLOSE 0 0,
                   TranslateMessage (close_message h), DefWindowProc h WM_CLOSE 0 0,
                   UnregisterHotKey h HOTKEY_ID_F5, UnregisterHotKey h HOTKEY_ID_UP,
                   PostQuitMessage 0]"
proof -
  have ok: "\<And>n h u a b. val (os n (PostMessage h u a b)) \<noteq> 0"
    using assms(1) by (simp add: succeeds_def needed_def)
  have ids: "HOTKEY_ID_UP \<noteq> HOTKEY_ID_F5"
    by (simp add: HOTKEY_ID_UP_def HOTKEY_ID_F5_def)
  show ?thesis
    using assms(2,3) ok ids
    by (cases w)
       (simp add: ready_def key_Q_down_def close_message_def GetMessage_def DispatchMessage_def
          WindowProc_def handleMessage_WM_KEYDOWN handleMessage_other WM_CLOSE_not_dedicated
          WM_QUIT_distinct handler_simps run_simps new_calls_def)
qed

lemma startup:
  assumes "succeeds os" and "hInstance = val (os 0 GetModuleHandle)"
  shows "\<exists>we. (\<forall>fuel. wWinMain fuel os env hInstance nCmdShow (initial_world inputs) =
                  (case message_loop fuel os we of
                     None \<Rightarrow> None
                   | Some wz \<Rightarrow> Some (ExitCode 0, TRACE2 (Line [Txt ''Returning from main'']) wz)))
              \<and> ready (main_window os) we \<and> pending we = inputs
              \<and> (CreateWindowExW main_window_args, os 2 (CreateWindowExW main_window_args))
                    \<in> set (calls we)"
proof -
  define w where "w = initial_world inputs"
  define cw where "cw = \<lparr>m_lpWindowName = ''Game TODO List'', m_x = 200, m_y = 200,
                     m_nWidth = 400, m_nHeight = 400, m_dwStyle = WS_OVERLAPPEDWINDOW\<rparr>"
  define wb where "wb = (snd (winapi os GetModuleHandle w))\<lparr>g_tracingLevel := envIntOr env ''TRACE'' 1\<rparr>"
  define wc where "wc = snd (createWindow os cw wb)"
  define we where "we = snd (winapi os (ShowWindow (m_hwnd (TRACE2 (Line [Txt ''Calling ShowWindow'']) wc)) nCmdShow)
                              (TRACE2 (Line [Txt ''Calling ShowWindow'']) wc))"
  have ok: "\<And>n. val (os n RegisterClassW) \<noteq> 0"
    "\<And>n cw. val (os n (CreateWindowExW cw)) \<noteq> 0"
    "\<And>n h i m v. val (os n (RegisterHotKey h i m v)) \<noteq> 0"
    using assms(1) by (simp_all add: succeeds_def needed_def)
  have m: "hInstance = val (os (length (calls w)) GetModuleHandle)"
    using assms(2) by (simp add: w_def initial_world_def)
  have eq: "\<forall>fuel. wWinMain fuel os env hInstance nCmdShow w =
          (case message_loop fuel os we of
             None \<Rightarrow> None
           | Some wz \<Rightarrow> Some (ExitCode 0, TRACE2 (Line [Txt ''Returning from main'']) wz))"
    using m
    by (simp add: wWinMain_def Let_def split_beta winapi_plain plain_def
          we_def wc_def wb_def cw_def del: message_loop.simps)
  have c: "m_hwnd wc = main_window os \<and> window_open wc
           \<and> hotkeys wc = [(main_window os, HOTKEY_ID_F5), (main_window os, HOTKEY_ID_UP)]
           \<and> queue wc = [] \<and> quit wc = None \<and> pending wc = inputs
           \<and> (CreateWindowExW main_window_args, os 2 (CreateWindowExW main_window_args))
                 \<in> set (calls wc)"
    using ok
    by (simp add: wc_def wb_def cw_def w_def initial_world_def main_window_def
          main_window_args_def startup_simps handler_simps run_simps numeral_2_eq_2)
  have "frame wc we"
    unfolding we_def
    by (rule frame_trans [OF frame_TRACE2]) (rule frame_winapi, simp add: plain_def)
  with c have "ready (main_window os) we \<and> pending we = inputs"
    by (simp add: frame_def ready_def)
  moreover have "(CreateWindowExW main_window_args, os 2 (CreateWindowExW main_window_args))
                   \<in> set (calls we)"
    using c by (simp add: we_def winapi_fields TRACE2_def TRACE_def)
  ultimately show ?thesis using eq unfolding w_def by blast
qed

lemma wWinMain_WM_QUIT:
  assumes "hInstance = val (os (length (calls w)) GetModuleHandle)"
    and "queue w = []" "quit w = None" "pending w = Deliver m # rest" "message m = WM_QUIT"
  shows "\<exists>w'. wWinMain (Suc fuel) os env hInstance nCmdShow w = Some (ExitCode 0, w')"
proof -
  define cw where "cw = \<lparr>m_lpWindowName = ''Game TODO List'', m_x = 200, m_y = 200,
                     m_nWidth = 400, m_nHeight = 400, m_dwStyle = WS_OVERLAPPEDWINDOW\<rparr>"
  define wb where "wb = (snd (winapi os GetModuleHandle w))\<lparr>g_tracingLevel := envIntOr env ''TRACE'' 1\<rparr>"
  define wc where "wc = snd (createWindow os cw wb)"
  define we where "we = snd (winapi os (ShowWindow (m_hwnd (TRACE2 (Line [Txt ''Calling ShowWindow'']) wc)) nCmdShow)
                              (TRACE2 (Line [Txt ''Calling ShowWindow'']) wc))"
  have b: "queue wb = [] \<and> quit wb = None \<and> pending wb = Deliver m # rest"
    using assms by (simp add: wb_def winapi_fields winapi_plain plain_def)
  have c: "queue wc = [] \<and> quit wc = None \<and> pending wc = Deliver m # rest"
    using b inbox_createWindow [of os cw wb] by (simp add: wc_def)
  have e: "queue we = [] \<and> quit we = None \<and> pending we = Deliver m # rest"
    using c by (simp add: we_def winapi_fields winapi_plain plain_def TRACE2_def TRACE_def)
  have loop: "message_loop (Suc fuel) os we = Some (we\<lparr>pending := rest\<rparr>)"
    using e assms(5) by (simp add: GetMessage_def)
  have "wWinMain (Suc fuel) os env hInstance nCmdShow w =
          (case message_loop (Suc fuel) os we of
             None \<Rightarrow> None
           | Some wz \<Rightarrow> Some (ExitCode 0, TRACE2 (Line [Txt ''Returning from main'']) wz))"
    using assms(1)
    by (simp add: wWinMain_def Let_def split_beta winapi_plain plain_def
          we_def wc_def wb_def cw_def del: message_loop.simps)
  with loop show ?thesis by simp
qed


section \<open>The capture operation, call by call\<close>

lemma held_after_append:
  "held_after held (cs @ ds) =
     (case held_after held cs of None \<Rightarrow> None | Some held' \<Rightarrow> held_after held' ds)"
  by (induction cs arbitrary: held) (auto split: option.split)

lemma capture_cycle:
  "\<exists>cs. calls (snd (captureScreen os w)) = calls w @ cs \<and> held_after [] cs = Some []"
  by (cases w) (simp add: run_simps take_or_give_def)

lemma capture_cycles:
  "\<exists>cs. calls (((\<lambda>s. snd (captureScreen os s)) ^^ n) w) = calls w @ cs
        \<and> held_after [] cs = Some []"
proof (induction n)
  case 0
  show ?case by simp
next
  case (Suc n)
  then obtain cs where
    a: "calls (((\<lambda>s. snd (captureScreen os s)) ^^ n) w) = calls w @ cs"
    and b: "held_after [] cs = Some []"
    by blast
  from capture_cycle [of os "((\<lambda>s. snd (captureScreen os s)) ^^ n) w"] obtain ds where
    c: "calls (snd (captureScreen os (((\<lambda>s. snd (captureScreen os s)) ^^ n) w))) =
          calls (((\<lambda>s. snd (captureScreen os s)) ^^ n) w) @ ds"
    and d: "held_after [] ds = Some []"
    by blast
  have "calls (((\<lambda>s. snd (captureScreen os s)) ^^ Suc n) w) = calls w @ (cs @ ds)"
    using a c by simp
  moreover have "held_after [] (cs @ ds) = Some []"
    using b d by (simp add: held_after_append)
  ultimately show ?case by blast
qed

lemma capture_log:
  assumes "fst (captureScreen os w) = Returned ()"
  shows "calls (snd (captureScreen os w)) = calls w @
     (let n = length (calls w);
          r1 = os n (GetDC NULL);
          r2 = os (n + 1) (GetDC (m_hwnd w));
          r3 = os (n + 2) (CreateCompatibleDC (val r2));
          r4 = os (n + 3) (GetClientRect (m_hwnd w));
          c5 = CreateCompatibleBitmap (val r2)
                 (sint (right (out_rect r4) - left (out_rect r4)))
                 (sint (bottom (out_rect r4) - top (out_rect r4)));
          r5 = os (n + 4) c5;
          r6 = os (n + 5) (SelectObject (val r3) (val r5));
          r7 = os (n + 6) (SetStretchBltMode (val r3) HALFTONE);
          r8 = os (n + 7) (GetSystemMetrics SM_CYSCREEN);
          r9 = os (n + 8) (GetSystemMetrics SM_CXSCREEN);
          c10 = StretchBlt (val r3) 0 0 (sint (right (out_rect r4))) (sint (bottom (out_rect r4)))
                  (val r1) 0 0 (val r9) (val r8) SRCCOPY;
          c11 = BitBlt (val r2) 0 0 (sint (right (out_rect r4))) (sint (bottom (out_rect r4)))
                  (val r3) 0 0 SRCCOPY
      in [(GetDC NULL, r1), (GetDC (m_hwnd w), r2), (CreateCompatibleDC (val r2), r3),
          (GetClientRect (m_hwnd w), r4), (c5, r5), (SelectObject (val r3) (val r5), r6),
          (SetStretchBltMode (val r3) HALFTONE, r7),
          (GetSystemMetrics SM_CYSCREEN, r8), (GetSystemMetrics SM_CXSCREEN, r9),
          (c10, os (n + 9) c10), (c11, os (n + 10) c11),
          (SelectObject (val r3) (val r6), os (n + 11) (SelectObject (val r3) (val r6))),
          (DeleteObject (val r5), os (n + 12) (DeleteObject (val r5))),
          (DeleteObject (val r3), os (n + 13) (DeleteObject (val r3))),
          (ReleaseDC (m_hwnd w) (val r2), os (n + 14) (ReleaseDC (m_hwnd w) (val r2))),
          (ReleaseDC NULL (val r1), os (n + 15) (ReleaseDC NULL (val r1)))])"
  using assms
  by (cases w) (simp add: run_simps eval_nat_numeral split: if_splits)

lemma capture_returns:
  assumes "\<forall>n c. examined c \<longrightarrow> val (os n c) \<noteq> 0"
  shows "fst (captureScreen os w) = Returned ()"
proof -
  have ok: "\<And>n h. val (os n (GetDC h)) \<noteq> 0"
    "\<And>n h. val (os n (CreateCompatibleDC h)) \<noteq> 0"
    "\<And>n h. val (os n (GetClientRect h)) \<noteq> 0"
    "\<And>n h x y. val (os n (CreateCompatibleBitmap h x y)) \<noteq> 0"
    "\<And>n h x. val (os n (SelectObject h x)) \<noteq> 0"
    "\<And>n a b c d e f g h i j. val (os n (StretchBlt a b c d e f g h i j SRCCOPY)) \<noteq> 0"
    "\<And>n a b c d e f g h. val (os n (BitBlt a b c d e f g h SRCCOPY)) \<noteq> 0"
    using assms by (simp_all add: examined_def checked_def)
  show ?thesis
    using ok by (cases w) (simp add: run_simps)
qed


lemma sint_sub_fits:
  fixes a b :: LONG
  assumes "INT_MIN \<le> sint a - sint b" and "sint a - sint b \<le> INT_MAX"
  shows "sint (a - b) = sint a - sint b"
proof -
  have "sint (a - b) = signed_take_bit 31 (sint a - sint b)"
    by (simp add: sint_word_ariths)
  also have "\<dots> = sint a - sint b"
    using assms by (intro signed_take_bit_int_eq_self) (simp_all add: INT_MIN_def INT_MAX_def)
  finally show ?thesis .
qed

lemma fits_size:
  "fits rc \<Longrightarrow> sint (right rc - left rc) = width rc \<and> sint (bottom rc - top rc) = height rc"
  by (simp add: fits_def width_def height_def sint_sub_fits)


section \<open>The tracing level\<close>

text \<open>
  C1, as stated, fails: with \<open>TRACE=abc\<close> the level read at startup is 0, the value of
  \<open>atoi\<close>, and not the default 1.
\<close>

theorem C1_non_numeric_is_zero:
  "envIntOr (env_TRACE ''abc'') ''TRACE'' 1 = 0
   \<and> envIntOr (env_TRACE ''abc'') ''TRACE'' 1 \<noteq> 1"
  by (simp add: envIntOr_def getenv_def env_TRACE_def env_unset_def atoi_def read_signed_def
        isspace_def isdigit_def INT_MIN_def INT_MAX_def)

text \<open>
  C1, amended: the level read at startup, \<open>envIntOr env ''TRACE'' 1\<close>, is the default 1
  when \<open>TRACE\<close> is absent; it is \<open>i\<close> when \<open>TRACE\<close> is the decimal numeral of an
  \<open>i\<close> that fits an \<open>int\<close>; it is 0 when \<open>TRACE\<close> holds no number. It is the
  tracing level for the rest of the run: \<open>wWinMain\<close> returns with it.
\<close>

theorem C1_level_read_at_startup:
  "(getenv env ''TRACE'' = None \<longrightarrow> envIntOr env ''TRACE'' 1 = 1)
   \<and> (\<forall>i. INT_MIN \<le> i \<and> i \<le> INT_MAX \<and> getenv env ''TRACE'' = Some (decimal i)
          \<longrightarrow> envIntOr env ''TRACE'' 1 = i)
   \<and> (\<forall>v. getenv env ''TRACE'' = Some v \<and> non_numeric v \<longrightarrow> envIntOr env ''TRACE'' 1 = 0)
   \<and> (wWinMain fuel os env hInstance nCmdShow w = Some (ExitCode c, w') \<longrightarrow>
        g_tracingLevel w' = envIntOr env ''TRACE'' 1)"
  using quiet_wWinMain [of fuel os env hInstance nCmdShow w c w']
  by (auto simp: envIntOr_def atoi_decimal atoi_non_numeric)

theorem C1_level_read_at_startup_witness:
  "envIntOr Map.empty ''TRACE'' 1 = 1
   \<and> envIntOr (Map.empty(''TRACE'' \<mapsto> decimal 3)) ''TRACE'' 1 = 3
   \<and> envIntOr (Map.empty(''TRACE'' \<mapsto> decimal (- 2))) ''TRACE'' 1 = - 2
   \<and> envIntOr (Map.empty(''TRACE'' \<mapsto> ''verbose'')) ''TRACE'' 1 = 0"
proof -
  have n: "non_numeric ''verbose''"
    by (simp add: non_numeric_def isspace_def isdigit_def)
  have r: "INT_MIN \<le> 3 \<and> 3 \<le> INT_MAX" "INT_MIN \<le> - 2 \<and> - 2 \<le> INT_MAX"
    by (simp_all add: INT_MIN_def INT_MAX_def)
  show ?thesis
    using C1_level_read_at_startup [where env = Map.empty]
      C1_level_read_at_startup [where env = "Map.empty(''TRACE'' \<mapsto> decimal 3)"]
      C1_level_read_at_startup [where env = "Map.empty(''TRACE'' \<mapsto> decimal (- 2))"]
      C1_level_read_at_startup [where env = "Map.empty(''TRACE'' \<mapsto> ''verbose'')"]
      n r
    by (simp add: getenv_def)
qed

text \<open>
  C10: when \<open>TRACE\<close> is set and \<open>atoi\<close> reads 0 or less from it, as from any string
  that holds no number, the tracing level is that value; then \<open>TRACE\<close> writes nothing at
  any level from 1 up, no handler and no capture writes anything, the reports of failed API
  calls included, and \<open>wWinMain\<close> returns with the diagnostic output as it found it.
\<close>

theorem C10_no_diagnostics_at_level_zero_or_less:
  assumes "getenv env ''TRACE'' = Some v" and "atoi v \<le> 0"
  shows "envIntOr env ''TRACE'' 1 = atoi v
   \<and> (non_numeric v \<longrightarrow> atoi v = 0)
   \<and> (wWinMain fuel os env hInstance nCmdShow w = Some (ExitCode c, w') \<longrightarrow>
        g_tracingLevel w' = atoi v \<and> wcerr w' = wcerr w)
   \<and> (\<forall>s l d. g_tracingLevel s \<le> 0 \<and> 1 \<le> l \<longrightarrow> TRACE l d s = s)
   \<and> (\<forall>s uMsg wp lp. g_tracingLevel s \<le> 0 \<longrightarrow>
          wcerr (snd (WindowProc os uMsg wp lp s)) = wcerr s
        \<and> g_tracingLevel (snd (WindowProc os uMsg wp lp s)) = g_tracingLevel s)
   \<and> (\<forall>s. g_tracingLevel s \<le> 0 \<longrightarrow> wcerr (snd (captureScreen os s)) = wcerr s)"
proof -
  have level: "envIntOr env ''TRACE'' 1 = atoi v"
    using assms(1) by (simp add: envIntOr_def)
  have run: "wWinMain fuel os env hInstance nCmdShow w = Some (ExitCode c, w') \<longrightarrow>
        g_tracingLevel w' = atoi v \<and> wcerr w' = wcerr w"
    using quiet_wWinMain [of fuel os env hInstance nCmdShow w c w'] level assms(2) by simp
  have trace: "\<forall>s l d. g_tracingLevel s \<le> 0 \<and> 1 \<le> l \<longrightarrow> TRACE l d s = s"
    by (simp add: TRACE_def)
  have handlers: "\<forall>s uMsg wp lp. g_tracingLevel s \<le> 0 \<longrightarrow>
          wcerr (snd (WindowProc os uMsg wp lp s)) = wcerr s
        \<and> g_tracingLevel (snd (WindowProc os uMsg wp lp s)) = g_tracingLevel s"
    using quiet_WindowProc [of _ os] by (simp add: quiet_def)
  have capture: "\<forall>s. g_tracingLevel s \<le> 0 \<longrightarrow> wcerr (snd (captureScreen os s)) = wcerr s"
    using frame_captureScreen [of _ os] by (simp add: frame_def)
  from level run trace handlers capture atoi_non_numeric [of v] show ?thesis
    by (intro conjI impI) simp_all
qed

theorem C10_no_diagnostics_at_level_zero_or_less_witness:
  "envIntOr (Map.empty(''TRACE'' \<mapsto> ''abc'')) ''TRACE'' 1 = 0
   \<and> envIntOr (Map.empty(''TRACE'' \<mapsto> ''-3'')) ''TRACE'' 1 = - 3
   \<and> (\<exists>w'. wWinMain (Suc 0) os_counting (Map.empty(''TRACE'' \<mapsto> ''abc'')) 1 1
                (initial_world [GetMessageFails]) = Some (ExitCode 0, w')
             \<and> g_tracingLevel w' = 0 \<and> wcerr w' = [])
   \<and> fst (captureScreen os_refuses (window7\<lparr>g_tracingLevel := - 3\<rparr>)) = Aborted
   \<and> wcerr (snd (captureScreen os_refuses (window7\<lparr>g_tracingLevel := - 3\<rparr>))) = []"
proof -
  let ?abc = "Map.empty(''TRACE'' \<mapsto> ''abc'')"
  let ?neg = "Map.empty(''TRACE'' \<mapsto> ''-3'')"
  have a: "atoi ''abc'' = 0" "atoi ''-3'' = - 3"
    by (simp_all add: atoi_def read_signed_def isspace_def isdigit_def digit_value_def
          INT_MIN_def INT_MAX_def)
  have g: "getenv ?abc ''TRACE'' = Some ''abc''" "getenv ?neg ''TRACE'' = Some ''-3''"
    by (simp_all add: getenv_def)
  obtain w' where run: "wWinMain (Suc 0) os_counting ?abc 1 1 (initial_world [GetMessageFails]) =
      Some (ExitCode 0, w')"
    using wWinMain_GetMessage_fails [of 1 os_counting "initial_world [GetMessageFails]" "[]" 0 ?abc 1]
    by (auto simp: initial_world_def os_counting_def)
  have i: "wcerr (initial_world [GetMessageFails]) = []"
    by (simp add: initial_world_def)
  have aborted: "fst (captureScreen os_refuses (window7\<lparr>g_tracingLevel := - 3\<rparr>)) = Aborted"
    by (simp add: run_simps os_refuses_def window7_def initial_world_def)
  have silent: "wcerr (window7\<lparr>g_tracingLevel := - 3\<rparr>) = []"
    "g_tracingLevel (window7\<lparr>g_tracingLevel := - 3\<rparr>) \<le> 0"
    by (simp_all add: window7_def initial_world_def)
  have abc: "g_tracingLevel w' = 0 \<and> wcerr w' = []"
    using C10_no_diagnostics_at_level_zero_or_less
            [OF g(1), where fuel = "Suc 0" and os = os_counting and hInstance = 1 and nCmdShow = 1
               and w = "initial_world [GetMessageFails]" and c = 0 and w' = w'] a(1) run i
    by simp
  have neg: "envIntOr ?neg ''TRACE'' 1 = - 3
      \<and> wcerr (snd (captureScreen os_refuses (window7\<lparr>g_tracingLevel := - 3\<rparr>))) = []"
    using C10_no_diagnostics_at_level_zero_or_less [OF g(2), where os = os_refuses] a(2) silent
    by simp
  have zero: "envIntOr ?abc ''TRACE'' 1 = 0"
    using C10_no_diagnostics_at_level_zero_or_less [OF g(1)] a(1) by simp
  from zero neg run abc aborted show ?thesis by blast
qed

section \<open>The capture operation\<close>

text \<open>
  C2: every invocation of the capture operation starts by taking the device context of the
  screen, and every graphics resource it takes it gives back, once and in the reverse order
  of taking, before it ends, whether it returns or is abandoned after a failed step: the calls
  it has made leave nothing held. When it returns, the calls that take and give back are
  \<open>GetDC\<close> for the screen and for the window, \<open>CreateCompatibleDC\<close>,
  \<open>CreateCompatibleBitmap\<close>, the selecting \<open>SelectObject\<close>, then the restoring
  \<open>SelectObject\<close>, \<open>DeleteObject\<close> of the bitmap and of the memory device context, and
  \<open>ReleaseDC\<close> for the window and for the screen, each on the handle that was returned;
  and it does return when no examined call fails. So after any number of invocations nothing
  that they took is held.
\<close>

theorem C2_capture_releases_what_it_acquires:
  "take (length (calls w)) (calls (snd (captureScreen os w))) = calls w
   \<and> (\<exists>r cs. new_calls w (snd (captureScreen os w)) = (GetDC NULL, r) # cs)
   \<and> held_after [] (new_calls w (snd (captureScreen os w))) = Some []
   \<and> (fst (captureScreen os w) = Returned () \<longrightarrow>
        (\<exists>r1 r2 r3 r4 r5 r6 r7 r8 r9 r10 cx cy.
           filter (\<lambda>(c, r). scoped c) (new_calls w (snd (captureScreen os w))) =
             [(GetDC NULL, r1), (GetDC (m_hwnd w), r2),
              (CreateCompatibleDC (val r2), r3),
              (CreateCompatibleBitmap (val r2) cx cy, r4),
              (SelectObject (val r3) (val r4), r5),
              (SelectObject (val r3) (val r5), r6),
              (DeleteObject (val r4), r7),
              (DeleteObject (val r3), r8),
              (ReleaseDC (m_hwnd w) (val r2), r9),
              (ReleaseDC NULL (val r1), r10)]))
   \<and> ((\<forall>n c. examined c \<longrightarrow> val (os n c) \<noteq> 0) \<longrightarrow> fst (captureScreen os w) = Returned ())
   \<and> take (length (calls w)) (calls (((\<lambda>s. snd (captureScreen os s)) ^^ n) w)) = calls w
   \<and> held_after [] (new_calls w (((\<lambda>s. snd (captureScreen os s)) ^^ n) w)) = Some []"
proof (intro conjI impI)
  from capture_cycle [of os w] obtain cs where
    cs: "calls (snd (captureScreen os w)) = calls w @ cs" "held_after [] cs = Some []"
    by blast
  then show "take (length (calls w)) (calls (snd (captureScreen os w))) = calls w"
    and "held_after [] (new_calls w (snd (captureScreen os w))) = Some []"
    by (simp_all add: new_calls_def)
  from capture_first_call [of os w] show
    "\<exists>r cs. new_calls w (snd (captureScreen os w)) = (GetDC NULL, r) # cs"
    by (auto simp: new_calls_def)
  from capture_cycles [where os = os and n = n and w = w] obtain ds where
    "calls (((\<lambda>s. snd (captureScreen os s)) ^^ n) w) = calls w @ ds" "held_after [] ds = Some []"
    by blast
  then show "take (length (calls w)) (calls (((\<lambda>s. snd (captureScreen os s)) ^^ n) w)) = calls w"
    and "held_after [] (new_calls w (((\<lambda>s. snd (captureScreen os s)) ^^ n) w)) = Some []"
    by (simp_all add: new_calls_def)
next
  assume "fst (captureScreen os w) = Returned ()"
  from capture_log [OF this] show
    "\<exists>r1 r2 r3 r4 r5 r6 r7 r8 r9 r10 cx cy.
           filter (\<lambda>(c, r). scoped c) (new_calls w (snd (captureScreen os w))) =
             [(GetDC NULL, r1), (GetDC (m_hwnd w), r2),
              (CreateCompatibleDC (val r2), r3),
              (CreateCompatibleBitmap (val r2) cx cy, r4),
              (SelectObject (val r3) (val r4), r5),
              (SelectObject (val r3) (val r5), r6),
              (DeleteObject (val r4), r7),
              (DeleteObject (val r3), r8),
              (ReleaseDC (m_hwnd w) (val r2), r9),
              (ReleaseDC NULL (val r1), r10)]"
    by (simp add: new_calls_def scoped_def Let_def)
next
  assume "\<forall>n c. examined c \<longrightarrow> val (os n c) \<noteq> 0"
  then show "fst (captureScreen os w) = Returned ()"
    by (rule capture_returns)
qed

theorem C2_capture_releases_what_it_acquires_witness:
  "fst (captureScreen os_counting window7) = Returned ()
   \<and> map fst (new_calls window7 (snd (captureScreen os_counting window7))) =
     [GetDC 0, GetDC 7, CreateCompatibleDC 2, GetClientRect 7,
      CreateCompatibleBitmap 2 640 480, SelectObject 3 5, SetStretchBltMode 3 HALFTONE,
      GetSystemMetrics SM_CYSCREEN, GetSystemMetrics SM_CXSCREEN,
      StretchBlt 3 0 0 640 480 1 0 0 9 8 SRCCOPY, BitBlt 2 0 0 640 480 3 0 0 SRCCOPY,
      SelectObject 3 6, DeleteObject 5, DeleteObject 3, ReleaseDC 7 2, ReleaseDC 0 1]
   \<and> (\<exists>r1 r2 r3 r4 r5 r6 r7 r8 r9 r10 cx cy.
         filter (\<lambda>(c, r). scoped c) (new_calls window7 (snd (captureScreen os_counting window7))) =
           [(GetDC NULL, r1), (GetDC (m_hwnd window7), r2),
            (CreateCompatibleDC (val r2), r3),
            (CreateCompatibleBitmap (val r2) cx cy, r4),
            (SelectObject (val r3) (val r4), r5),
            (SelectObject (val r3) (val r5), r6),
            (DeleteObject (val r4), r7),
            (DeleteObject (val r3), r8),
            (ReleaseDC (m_hwnd window7) (val r2), r9),
            (ReleaseDC NULL (val r1), r10)])
   \<and> held_after [] (new_calls window7 (snd (captureScreen os_counting window7))) = Some []
   \<and> map fst (new_calls window7 (snd (captureScreen os_copy_fails window7))) =
     [GetDC 0, GetDC 7, CreateCompatibleDC 2, GetClientRect 7,
      CreateCompatibleBitmap 2 640 480, SelectObject 3 5, SetStretchBltMode 3 HALFTONE,
      GetSystemMetrics SM_CYSCREEN, GetSystemMetrics SM_CXSCREEN,
      StretchBlt 3 0 0 640 480 1 0 0 9 8 SRCCOPY,
      SelectObject 3 6, DeleteObject 5, DeleteObject 3, ReleaseDC 7 2, ReleaseDC 0 1]
   \<and> fst (captureScreen os_copy_fails window7) = Aborted
   \<and> held_after [] (new_calls window7 (snd (captureScreen os_copy_fails window7))) = Some []
   \<and> held_after []
        (new_calls window7 (((\<lambda>s. snd (captureScreen os_counting s)) ^^ 3) window7)) = Some []"
proof -
  have ok: "\<forall>n c. examined c \<longrightarrow> val (os_counting n c) \<noteq> 0"
    by (simp add: os_counting_def)
  have run: "map fst (new_calls window7 (snd (captureScreen os_counting window7))) =
     [GetDC 0, GetDC 7, CreateCompatibleDC 2, GetClientRect 7,
      CreateCompatibleBitmap 2 640 480, SelectObject 3 5, SetStretchBltMode 3 HALFTONE,
      GetSystemMetrics SM_CYSCREEN, GetSystemMetrics SM_CXSCREEN,
      StretchBlt 3 0 0 640 480 1 0 0 9 8 SRCCOPY, BitBlt 2 0 0 640 480 3 0 0 SRCCOPY,
      SelectObject 3 6, DeleteObject 5, DeleteObject 3, ReleaseDC 7 2, ReleaseDC 0 1]"
    by (simp add: run_simps new_calls_def os_counting_def window7_def initial_world_def)
  have abandoned: "map fst (new_calls window7 (snd (captureScreen os_copy_fails window7))) =
     [GetDC 0, GetDC 7, CreateCompatibleDC 2, GetClientRect 7,
      CreateCompatibleBitmap 2 640 480, SelectObject 3 5, SetStretchBltMode 3 HALFTONE,
      GetSystemMetrics SM_CYSCREEN, GetSystemMetrics SM_CXSCREEN,
      StretchBlt 3 0 0 640 480 1 0 0 9 8 SRCCOPY,
      SelectObject 3 6, DeleteObject 5, DeleteObject 3, ReleaseDC 7 2, ReleaseDC 0 1]"
    "fst (captureScreen os_copy_fails window7) = Aborted"
    by (simp_all add: run_simps new_calls_def os_copy_fails_def window7_def initial_world_def)
  note counting =
    C2_capture_releases_what_it_acquires [where os = os_counting and w = window7 and n = 3]
  have returned: "fst (captureScreen os_counting window7) = Returned ()"
    using counting ok by blast
  have held: "held_after [] (new_calls window7 (snd (captureScreen os_counting window7))) = Some []"
    "held_after []
       (new_calls window7 (((\<lambda>s. snd (captureScreen os_counting s)) ^^ 3) window7)) = Some []"
    using counting by blast+
  have scoped: "\<exists>r1 r2 r3 r4 r5 r6 r7 r8 r9 r10 cx cy.
         filter (\<lambda>(c, r). scoped c) (new_calls window7 (snd (captureScreen os_counting window7))) =
           [(GetDC NULL, r1), (GetDC (m_hwnd window7), r2),
            (CreateCompatibleDC (val r2), r3),
            (CreateCompatibleBitmap (val r2) cx cy, r4),
            (SelectObject (val r3) (val r4), r5),
            (SelectObject (val r3) (val r5), r6),
            (DeleteObject (val r4), r7),
            (DeleteObject (val r3), r8),
            (ReleaseDC (m_hwnd window7) (val r2), r9),
            (ReleaseDC NULL (val r1), r10)]"
    using counting returned by blast
  have "held_after [] (new_calls window7 (snd (captureScreen os_copy_fails window7))) = Some []"
    using C2_capture_releases_what_it_acquires [where os = os_copy_fails and w = window7]
    by blast
  with returned run scoped held abandoned show ?thesis by (simp only: simp_thms)
qed





text \<open>
  C4: let the rectangle that the query of the client rectangle returns have a width and a
  height that fit a \<open>LONG\<close>, as every rectangle of a client area has. Then in every
  invocation the bitmap is allocated right after the query, with exactly the rectangle's
  width and height, and nowhere else; when the operation returns, the query, the allocation
  and the two copies have all run, whatever the rectangle is, an empty one included; and it
  does return when no examined call fails.
\<close>

theorem C4_bitmap_has_client_size:
  assumes "\<forall>n. fits (out_rect (os n (GetClientRect (m_hwnd w))))"
  shows "\<exists>cs. calls (snd (captureScreen os w)) = calls w @ cs
        \<and> bitmap_sized None cs
        \<and> (fst (captureScreen os w) = Returned () \<longrightarrow>
             (\<exists>r1 r2 r3 r4 hdcWindow hdcMemDC hdcScreen cx cy.
                filter (\<lambda>(c, r). drawing c) cs =
                  [(GetClientRect (m_hwnd w), r1),
                   (CreateCompatibleBitmap hdcWindow
                      (width (out_rect r1)) (height (out_rect r1)), r2),
                   (StretchBlt hdcMemDC 0 0
                      (sint (right (out_rect r1))) (sint (bottom (out_rect r1)))
                      hdcScreen 0 0 cx cy SRCCOPY, r3),
                   (BitBlt hdcWindow 0 0
                      (sint (right (out_rect r1))) (sint (bottom (out_rect r1)))
                      hdcMemDC 0 0 SRCCOPY, r4)]))
        \<and> ((\<forall>n c. examined c \<longrightarrow> val (os n c) \<noteq> 0) \<longrightarrow>
             fst (captureScreen os w) = Returned ())"
proof -
  have eq: "sint (right (out_rect (os n (GetClientRect (m_hwnd w))))
                  - left (out_rect (os n (GetClientRect (m_hwnd w)))))
              = width (out_rect (os n (GetClientRect (m_hwnd w))))"
    "sint (bottom (out_rect (os n (GetClientRect (m_hwnd w))))
                  - top (out_rect (os n (GetClientRect (m_hwnd w)))))
              = height (out_rect (os n (GetClientRect (m_hwnd w))))" for n
    using assms fits_size by blast+
  have "\<exists>cs. calls (snd (captureScreen os w)) = calls w @ cs
        \<and> bitmap_sized None cs
        \<and> (fst (captureScreen os w) = Returned () \<longrightarrow>
             (\<exists>r1 r2 r3 r4 hdcWindow hdcMemDC hdcScreen cx cy.
                filter (\<lambda>(c, r). drawing c) cs =
                  [(GetClientRect (m_hwnd w), r1),
                   (CreateCompatibleBitmap hdcWindow
                      (width (out_rect r1)) (height (out_rect r1)), r2),
                   (StretchBlt hdcMemDC 0 0
                      (sint (right (out_rect r1))) (sint (bottom (out_rect r1)))
                      hdcScreen 0 0 cx cy SRCCOPY, r3),
                   (BitBlt hdcWindow 0 0
                      (sint (right (out_rect r1))) (sint (bottom (out_rect r1)))
                      hdcMemDC 0 0 SRCCOPY, r4)]))"
    using eq by (cases w) (simp add: run_simps drawing_def)
  then show ?thesis
    using capture_returns [of os w] by blast
qed

theorem C4_bitmap_has_client_size_witness:
  "(\<forall>n. fits (out_rect (os_empty_client n (GetClientRect (m_hwnd window7)))))
   \<and> (\<exists>cs. calls (snd (captureScreen os_empty_client window7)) = calls window7 @ cs
        \<and> bitmap_sized None cs)
   \<and> fst (captureScreen os_empty_client window7) = Returned ()
   \<and> map fst (filter (\<lambda>(c, r). drawing c) (calls (snd (captureScreen os_empty_client window7)))) =
        [GetClientRect 7, CreateCompatibleBitmap 2 0 0,
         StretchBlt 3 0 0 0 0 1 0 0 9 8 SRCCOPY, BitBlt 2 0 0 0 0 3 0 0 SRCCOPY]
   \<and> map fst (filter (\<lambda>(c, r). drawing c) (calls (snd (captureScreen os_counting window7)))) =
        [GetClientRect 7, CreateCompatibleBitmap 2 640 480,
         StretchBlt 3 0 0 640 480 1 0 0 9 8 SRCCOPY, BitBlt 2 0 0 640 480 3 0 0 SRCCOPY]"
proof -
  have f: "\<forall>n. fits (out_rect (os_empty_client n (GetClientRect (m_hwnd window7))))"
    by (simp add: fits_def width_def height_def os_empty_client_def INT_MIN_def INT_MAX_def)
  have ok: "\<forall>n c. examined c \<longrightarrow> val (os_empty_client n c) \<noteq> 0"
    by (simp add: os_empty_client_def)
  have run:
    "map fst (filter (\<lambda>(c, r). drawing c) (calls (snd (captureScreen os_empty_client window7)))) =
        [GetClientRect 7, CreateCompatibleBitmap 2 0 0,
         StretchBlt 3 0 0 0 0 1 0 0 9 8 SRCCOPY, BitBlt 2 0 0 0 0 3 0 0 SRCCOPY]"
    by (simp add: run_simps drawing_def os_empty_client_def window7_def initial_world_def)
  have sized: "map fst (filter (\<lambda>(c, r). drawing c) (calls (snd (captureScreen os_counting window7)))) =
        [GetClientRect 7, CreateCompatibleBitmap 2 640 480,
         StretchBlt 3 0 0 640 480 1 0 0 9 8 SRCCOPY, BitBlt 2 0 0 640 480 3 0 0 SRCCOPY]"
    by (simp add: run_simps drawing_def os_counting_def window7_def initial_world_def)
  from C4_bitmap_has_client_size [where os = os_empty_client and w = window7] f ok run sized
  show ?thesis
    by blast
qed

section \<open>The handlers\<close>

text \<open>
  C5: a hot key event is dispatched on its identifier alone. With the identifier 1
  (\<open>HOTKEY_ID_F5\<close>) the handler writes its level-2 line and runs the capture operation,
  which starts with \<open>GetDC(NULL)\<close>; with any other identifier, that of the second hot key
  included, it writes the line and does nothing else: the state is as before but for the
  diagnostic output. The two hot keys are those \<open>WM_CREATE\<close> registers: the identifier 1
  with F5, the identifier 2 with the up key.
\<close>

theorem C5_hotkey_dispatch:
  "(wp = word_of_int HOTKEY_ID_F5 \<longrightarrow>
      handleMessage os base WM_HOTKEY wp lp w =
        (case captureScreen os
                (TRACE2 (Line [Txt ''hotkey: id='', Dec (unat wp),
                               Txt '' fsModifiers='', Dec (unat (LOWORD lp)),
                               Txt '' vk='', Dec (unat (HIWORD lp))]) w) of
           (Aborted, wa) \<Rightarrow> (Aborted, wa)
         | (Returned u, wa) \<Rightarrow> (Returned 0, wa))
      \<and> (\<exists>r cs. calls (snd (handleMessage os base WM_HOTKEY wp lp w)) =
                   calls w @ (GetDC NULL, r) # cs))
   \<and> (wp \<noteq> word_of_int HOTKEY_ID_F5 \<longrightarrow>
      handleMessage os base WM_HOTKEY wp lp w =
        (Returned 0,
         TRACE2 (Line [Txt ''hotkey: id='', Dec (unat wp),
                       Txt '' fsModifiers='', Dec (unat (LOWORD lp)),
                       Txt '' vk='', Dec (unat (HIWORD lp))]) w)
      \<and> (snd (handleMessage os base WM_HOTKEY wp lp w))\<lparr>wcerr := wcerr w\<rparr> = w)
   \<and> (fst (handleMessage os base WM_CREATE wp lp w) = Returned 0 \<longrightarrow>
        (\<exists>r1 r2 r3 r4 r5 r6.
           calls (snd (handleMessage os base WM_CREATE wp lp w)) =
             calls w @
             [(GetModuleHandle, r1), (LoadIcon (val r1) 1, r2),
              (SendMessage (m_hwnd w) WM_SETICON ICON_SMALL (word_of_int (val r2)), r3),
              (SendMessage (m_hwnd w) WM_SETICON ICON_BIG (word_of_int (val r2)), r4),
              (RegisterHotKey (m_hwnd w) HOTKEY_ID_F5 0 VK_F5, r5),
              (RegisterHotKey (m_hwnd w) HOTKEY_ID_UP 0 VK_UP, r6)]))"
proof (intro conjI impI)
  let ?w = "TRACE2 (Line [Txt ''hotkey: id='', Dec (unat wp),
                               Txt '' fsModifiers='', Dec (unat (LOWORD lp)),
                               Txt '' vk='', Dec (unat (HIWORD lp))]) w"
  assume f5: "wp = word_of_int HOTKEY_ID_F5"
  then show eq: "handleMessage os base WM_HOTKEY wp lp w =
        (case captureScreen os ?w of
           (Aborted, wa) \<Rightarrow> (Aborted, wa)
         | (Returned u, wa) \<Rightarrow> (Returned 0, wa))"
    by (simp add: handleMessage_WM_HOTKEY onHotKey_def Let_def)
  have "calls ?w = calls w" by (simp add: TRACE2_def TRACE_def)
  with capture_first_call [of os ?w] obtain r cs where
    "calls (snd (captureScreen os ?w)) = calls w @ (GetDC NULL, r) # cs" by auto
  then show "\<exists>r cs. calls (snd (handleMessage os base WM_HOTKEY wp lp w)) =
                   calls w @ (GetDC NULL, r) # cs"
    unfolding eq by (auto split: prod.split outcome.split)
next
  assume other: "wp \<noteq> word_of_int HOTKEY_ID_F5"
  then show eq: "handleMessage os base WM_HOTKEY wp lp w =
        (Returned 0,
         TRACE2 (Line [Txt ''hotkey: id='', Dec (unat wp),
                       Txt '' fsModifiers='', Dec (unat (LOWORD lp)),
                       Txt '' vk='', Dec (unat (HIWORD lp))]) w)"
    by (simp add: handleMessage_WM_HOTKEY onHotKey_def Let_def)
  show "(snd (handleMessage os base WM_HOTKEY wp lp w))\<lparr>wcerr := wcerr w\<rparr> = w"
    unfolding eq by (simp add: TRACE2_def TRACE_def)
next
  assume "fst (handleMessage os base WM_CREATE wp lp w) = Returned 0"
  then show "\<exists>r1 r2 r3 r4 r5 r6.
           calls (snd (handleMessage os base WM_CREATE wp lp w)) =
             calls w @
             [(GetModuleHandle, r1), (LoadIcon (val r1) 1, r2),
              (SendMessage (m_hwnd w) WM_SETICON ICON_SMALL (word_of_int (val r2)), r3),
              (SendMessage (m_hwnd w) WM_SETICON ICON_BIG (word_of_int (val r2)), r4),
              (RegisterHotKey (m_hwnd w) HOTKEY_ID_F5 0 VK_F5, r5),
              (RegisterHotKey (m_hwnd w) HOTKEY_ID_UP 0 VK_UP, r6)]"
    by (cases w) (simp add: handler_simps run_simps split: if_splits)
qed

theorem C5_hotkey_dispatch_witness:
  "handleMessage os_counting no_base WM_HOTKEY (word_of_int HOTKEY_ID_UP) 0 window7 =
     (Returned 0, window7)
   \<and> (\<exists>r cs. calls (snd (handleMessage os_counting no_base WM_HOTKEY
                               (word_of_int HOTKEY_ID_F5) 0 window7)) =
                calls window7 @ (GetDC NULL, r) # cs)"
proof -
  have ne: "(word_of_int HOTKEY_ID_UP :: WPARAM) \<noteq> word_of_int HOTKEY_ID_F5"
    by (simp add: HOTKEY_ID_UP_def HOTKEY_ID_F5_def)
  have quiet: "TRACE2 l window7 = window7" for l
    by (simp add: TRACE2_def TRACE_def window7_def initial_world_def)
  have "handleMessage os_counting no_base WM_HOTKEY (word_of_int HOTKEY_ID_UP) 0 window7 =
     (Returned 0, window7)"
    using C5_hotkey_dispatch [of "word_of_int HOTKEY_ID_UP" os_counting no_base 0 window7] ne
    by (simp only: quiet) blast
  moreover have "\<exists>r cs. calls (snd (handleMessage os_counting no_base WM_HOTKEY
                               (word_of_int HOTKEY_ID_F5) 0 window7)) =
                calls window7 @ (GetDC NULL, r) # cs"
    using C5_hotkey_dispatch [of "word_of_int HOTKEY_ID_F5" os_counting no_base 0 window7]
    by blast
  ultimately show ?thesis by blast
qed

text \<open>
  C8: a message without a case of its own reaches \<open>BaseWindow::handleMessage\<close> with
  the state untouched; a key other than Q reaches it after the level-2 line of
  \<open>onKeyDown\<close>, which changes nothing but the diagnostic output. With the default handling
  of the spec for \<open>BaseWindow::handleMessage\<close>, the one call made is \<open>DefWindowProc\<close> on
  the same message.
\<close>

theorem C8_unhandled_events_fall_through:
  "(\<not> dedicated uMsg \<longrightarrow> handleMessage os base uMsg wp lp w = base uMsg wp lp w)
   \<and> (wp \<noteq> KEY_Q \<longrightarrow>
        handleMessage os base WM_KEYDOWN wp lp w =
          base WM_KEYDOWN wp lp
            (TRACE2 (Line [Txt ''onKeyDown:'', Txt '' wParam='', Hex (unat wp),
                           Txt '' lParam='', Hex (unat lp)]) w))
   \<and> (TRACE2 l w)\<lparr>wcerr := wcerr w\<rparr> = w
   \<and> (\<not> dedicated uMsg \<and> uMsg \<noteq> WM_CLOSE \<longrightarrow>
        (\<exists>r. WindowProc os uMsg wp lp w =
               (Returned (val r),
                w\<lparr>calls := calls w @ [(DefWindowProc (m_hwnd w) uMsg wp lp, r)]\<rparr>)))"
proof -
  have "\<not> dedicated uMsg \<and> uMsg \<noteq> WM_CLOSE \<longrightarrow>
        (\<exists>r. WindowProc os uMsg wp lp w =
               (Returned (val r),
                w\<lparr>calls := calls w @ [(DefWindowProc (m_hwnd w) uMsg wp lp, r)]\<rparr>))"
    by (cases w) (simp add: WindowProc_def handleMessage_other handler_simps run_simps)
  then show ?thesis
    by (simp add: handleMessage_other handleMessage_WM_KEYDOWN onKeyDown_def Let_def
          TRACE2_def TRACE_def)
qed

theorem C8_unhandled_events_fall_through_witness:
  "handleMessage os_counting no_base WM_CLOSE 0 0 window7 = (Returned 0, window7)
   \<and> handleMessage os_counting no_base WM_KEYDOWN 65 0 window7 = (Returned 0, window7)
   \<and> (\<exists>r. WindowProc os_counting WM_SETICON 0 0 window7 =
             (Returned (val r),
              window7\<lparr>calls := calls window7 @ [(DefWindowProc 7 WM_SETICON 0 0, r)]\<rparr>))"
proof -
  have d: "\<not> dedicated WM_CLOSE" "\<not> dedicated WM_SETICON" "WM_SETICON \<noteq> WM_CLOSE"
    by (simp_all add: dedicated_def WM_CLOSE_def WM_CREATE_def WM_DESTROY_def WM_PAINT_def
          WM_HOTKEY_def WM_KEYDOWN_def WM_SETICON_def)
  have k: "(65 :: WPARAM) \<noteq> KEY_Q" by (simp add: KEY_Q_def)
  have m: "m_hwnd window7 = 7" by (simp add: window7_def)
  show ?thesis
    using C8_unhandled_events_fall_through [of WM_CLOSE os_counting no_base 0 0 window7]
      C8_unhandled_events_fall_through [of WM_SETICON os_counting no_base 0 0 window7]
      C8_unhandled_events_fall_through [of _ os_counting no_base 65 0 window7] d k m
    by (simp add: no_base_def TRACE2_def TRACE_def window7_def initial_world_def)
qed

text \<open>
  C7: let no hot key of the window be registered when the window is created, and let the
  window be destroyed in any later state with the hot keys as creation left them. Then the
  hot keys that \<open>WM_DESTROY\<close> unregisters are exactly those that \<open>WM_CREATE\<close> registered,
  window by window and identifier by identifier, and afterwards the hot keys are those from
  before the creation: none of the program's remains. When both registrations succeeded,
  the handler's calls are the two \<open>UnregisterHotKey\<close> and then \<open>PostQuitMessage(0)\<close>.
\<close>

theorem C7_destroy_unregisters_what_create_registered:
  assumes fresh: "\<forall>i. (m_hwnd w, i) \<notin> set (hotkeys w)"
    and window: "m_hwnd w2 = m_hwnd w"
    and later: "hotkeys w2 = hotkeys (snd (handleMessage os base WM_CREATE wp lp w))"
  shows "\<exists>cs cs'.
           calls (snd (handleMessage os base WM_CREATE wp lp w)) = calls w @ cs
         \<and> calls (snd (handleMessage os2 base2 WM_DESTROY wp2 lp2 w2)) = calls w2 @ cs'
         \<and> unregistered cs' = registered cs
         \<and> hotkeys (snd (handleMessage os2 base2 WM_DESTROY wp2 lp2 w2)) = hotkeys w
         \<and> (fst (handleMessage os base WM_CREATE wp lp w) = Returned 0 \<longrightarrow>
              registered cs = [(m_hwnd w, HOTKEY_ID_F5), (m_hwnd w, HOTKEY_ID_UP)]
            \<and> map fst cs' = [UnregisterHotKey (m_hwnd w) HOTKEY_ID_F5,
                             UnregisterHotKey (m_hwnd w) HOTKEY_ID_UP, PostQuitMessage 0]
            \<and> fst (handleMessage os2 base2 WM_DESTROY wp2 lp2 w2) = Returned 0
            \<and> quit (snd (handleMessage os2 base2 WM_DESTROY wp2 lp2 w2)) = Some 0)"
  using assms
  by (cases w; cases w2)
     (simp add: handler_simps run_simps HOTKEY_ID_F5_def HOTKEY_ID_UP_def remove1_append)

theorem C7_destroy_unregisters_what_create_registered_witness:
  "hotkeys (snd (handleMessage os_counting no_base WM_CREATE 0 0 window7)) = [(7, 1), (7, 2)]
   \<and> hotkeys (snd (handleMessage os_counting no_base WM_DESTROY 0 0
                     (snd (handleMessage os_counting no_base WM_CREATE 0 0 window7)))) = []
   \<and> quit (snd (handleMessage os_counting no_base WM_DESTROY 0 0
                     (snd (handleMessage os_counting no_base WM_CREATE 0 0 window7)))) = Some 0"
proof -
  define w2 where "w2 = snd (handleMessage os_counting no_base WM_CREATE 0 0 window7)"
  have created: "fst (handleMessage os_counting no_base WM_CREATE 0 0 window7) = Returned 0"
    "hotkeys w2 = [(7, 1), (7, 2)]" "m_hwnd w2 = m_hwnd window7"
    by (simp_all add: w2_def handler_simps run_simps os_counting_def window7_def
          initial_world_def HOTKEY_ID_F5_def HOTKEY_ID_UP_def)
  have fresh: "\<forall>i. (m_hwnd window7, i) \<notin> set (hotkeys window7)"
    by (simp add: window7_def initial_world_def)
  have h0: "hotkeys window7 = []"
    by (simp add: window7_def initial_world_def)
  from C7_destroy_unregisters_what_create_registered
         [OF fresh created(3), of os_counting no_base 0 0 os_counting no_base 0 0] created h0
  show ?thesis unfolding w2_def by auto
qed

section \<open>The entry point and the message loop\<close>

text \<open>
  C9: let \<open>hInstance\<close> be the handle of the module, the handle that
  \<open>GetModuleHandle(nullptr)\<close> returns, as it is in every execution of the process: the
  C runtime passes it to \<open>wWinMain\<close>, and the assertion of the first statement records it.
  Then whenever \<open>wWinMain\<close> ends it has returned 0; and it does return, with 0, when
  \<open>GetMessage\<close> leaves the loop with its error return, and when it leaves the loop on
  \<open>WM_QUIT\<close>.
\<close>

theorem C9_exit_code:
  assumes "hInstance = val (os (length (calls w)) GetModuleHandle)"
  shows "(wWinMain fuel os env hInstance nCmdShow w = Some (e, w') \<longrightarrow> e = ExitCode 0)
   \<and> (queue w = [] \<and> quit w = None \<and> pending w = GetMessageFails # rest \<longrightarrow>
        (\<exists>wz. wWinMain (Suc fuel) os env hInstance nCmdShow w = Some (ExitCode 0, wz)))
   \<and> (queue w = [] \<and> quit w = None \<and> pending w = Deliver m # rest \<and> message m = WM_QUIT \<longrightarrow>
        (\<exists>wz. wWinMain (Suc fuel) os env hInstance nCmdShow w = Some (ExitCode 0, wz)))"
proof (intro conjI impI)
  assume "wWinMain fuel os env hInstance nCmdShow w = Some (e, w')"
  then show "e = ExitCode 0"
    using wWinMain_exit [of fuel os env hInstance nCmdShow w e w'] assms by simp
next
  assume "queue w = [] \<and> quit w = None \<and> pending w = GetMessageFails # rest"
  then show "\<exists>wz. wWinMain (Suc fuel) os env hInstance nCmdShow w = Some (ExitCode 0, wz)"
    using assms by (elim conjE) (rule wWinMain_GetMessage_fails)
next
  assume "queue w = [] \<and> quit w = None \<and> pending w = Deliver m # rest \<and> message m = WM_QUIT"
  then show "\<exists>wz. wWinMain (Suc fuel) os env hInstance nCmdShow w = Some (ExitCode 0, wz)"
    using assms by (elim conjE) (rule wWinMain_WM_QUIT)
qed


theorem C9_exit_code_witness:
  "1 = val (os_counting (length (calls (initial_world [GetMessageFails]))) GetModuleHandle)
   \<and> (\<exists>w'. wWinMain (Suc 0) os_counting env_unset 1 1 (initial_world [GetMessageFails]) =
           Some (ExitCode 0, w'))"
proof -
  have h: "1 = val (os_counting (length (calls (initial_world [GetMessageFails]))) GetModuleHandle)"
    by (simp add: initial_world_def os_counting_def)
  from C9_exit_code [where hInstance = 1 and os = os_counting
      and w = "initial_world [GetMessageFails]" and fuel = 0 and env = env_unset
      and nCmdShow = 1 and rest = "[]"] h
  show ?thesis
    by (simp add: initial_world_def)
qed


text \<open>
  C6, as stated, fails. \<open>onKeyDown\<close> does not look at the result of \<open>PostMessage\<close>.
  When \<open>PostMessage\<close> fails, the key Q is consumed all the same, no close message is in
  the queue, and the window stays open: the run that receives only the key waits for the
  next message for ever, and the run whose \<open>GetMessage\<close> fails after the key returns 0
  with the window still open.
\<close>

theorem C6_close_message_not_posted:
  "val (os_post_fails 0 GetModuleHandle) = 1
   \<and> fst (WindowProc os_post_fails WM_KEYDOWN KEY_Q 0 window7) = Returned 0
   \<and> map fst (calls (snd (WindowProc os_post_fails WM_KEYDOWN KEY_Q 0 window7))) =
       [PostMessage 7 WM_CLOSE 0 0]
   \<and> map (val \<circ> snd) (calls (snd (WindowProc os_post_fails WM_KEYDOWN KEY_Q 0 window7))) = [0]
   \<and> queue (snd (WindowProc os_post_fails WM_KEYDOWN KEY_Q 0 window7)) = []
   \<and> window_open (snd (WindowProc os_post_fails WM_KEYDOWN KEY_Q 0 window7))
   \<and> wWinMain 4 os_post_fails env_unset 1 1 (initial_world [Deliver (key_Q_down 3 0)]) = None
   \<and> map_option fst
        (wWinMain 4 os_post_fails env_unset 1 1
           (initial_world [Deliver (key_Q_down 3 0), GetMessageFails])) = Some (ExitCode 0)
   \<and> map_option (window_open \<circ> snd)
        (wWinMain 4 os_post_fails env_unset 1 1
           (initial_world [Deliver (key_Q_down 3 0), GetMessageFails])) = Some True"
  by (simp add: startup_simps handler_simps run_simps WindowProc_def handleMessage_WM_KEYDOWN
        GetMessage_def DispatchMessage_def key_Q_down_def os_post_fails_def window7_def
        initial_world_def env_unset_def eval_nat_numeral WM_QUIT_distinct
        HOTKEY_ID_F5_def HOTKEY_ID_UP_def)

text \<open>
  C6, amended: the handler of a key-down of Q calls \<open>PostMessage\<close> for \<open>WM_CLOSE\<close>
  on the window and consumes the event, \<open>BaseWindow::handleMessage\<close> is not called;
  the close message is in the queue exactly when \<open>PostMessage\<close> succeeded. When the
  window has been created with its two hot keys, the messages before the key are harmless
  and \<open>PostMessage\<close> succeeds, the run that receives the key ends: the window was created,
  and the last calls of the run are those of the key (\<open>TranslateMessage\<close>, the posting),
  of the close message (\<open>TranslateMessage\<close>, its default handling) and of \<open>WM_DESTROY\<close>
  (both hot keys unregistered, the quit message posted); \<open>wWinMain\<close> returns 0 with the
  window closed, no hot key registered, and the input after the key not read.
\<close>

theorem C6_quit_key_closes_and_exits:
  "handleMessage os base WM_KEYDOWN KEY_Q lp w = (Returned 0, snd (onKeyDown os KEY_Q lp w))
   \<and> (\<exists>r. calls (snd (onKeyDown os KEY_Q lp w)) =
             calls w @ [(PostMessage (m_hwnd w) WM_CLOSE 0 0, r)]
          \<and> queue (snd (onKeyDown os KEY_Q lp w)) =
              (if val r \<noteq> 0 then queue w @ [close_message (m_hwnd w)] else queue w))
   \<and> (succeeds os \<and> hInstance = val (os 0 GetModuleHandle) \<and> (\<forall>m \<in> set pre. harmless m) \<longrightarrow>
        (\<exists>fuel w' before.
           wWinMain fuel os env hInstance nCmdShow
             (initial_world (map Deliver pre @ Deliver (key_Q_down (main_window os) lp) # rest)) =
             Some (ExitCode 0, w')
           \<and> map fst (calls w') =
               before @
               [TranslateMessage (key_Q_down (main_window os) lp),
                PostMessage (main_window os) WM_CLOSE 0 0,
                TranslateMessage (close_message (main_window os)),
                DefWindowProc (main_window os) WM_CLOSE 0 0,
                UnregisterHotKey (main_window os) HOTKEY_ID_F5,
                UnregisterHotKey (main_window os) HOTKEY_ID_UP,
                PostQuitMessage 0]
           \<and> (\<exists>r. (CreateWindowExW main_window_args, r) \<in> set (calls w')
                    \<and> val r = main_window os)
           \<and> \<not> window_open w' \<and> hotkeys w' = [] \<and> pending w' = rest))"
proof (intro conjI impI)
  show "handleMessage os base WM_KEYDOWN KEY_Q lp w = (Returned 0, snd (onKeyDown os KEY_Q lp w))"
    by (simp add: handleMessage_WM_KEYDOWN onKeyDown_def Let_def split_beta)
  show "\<exists>r. calls (snd (onKeyDown os KEY_Q lp w)) =
             calls w @ [(PostMessage (m_hwnd w) WM_CLOSE 0 0, r)]
          \<and> queue (snd (onKeyDown os KEY_Q lp w)) =
              (if val r \<noteq> 0 then queue w @ [close_message (m_hwnd w)] else queue w)"
    by (cases w) (simp add: run_simps close_message_def)
next
  assume a: "succeeds os \<and> hInstance = val (os 0 GetModuleHandle) \<and> (\<forall>m \<in> set pre. harmless m)"
  let ?h = "main_window os"
  let ?inputs = "map Deliver pre @ Deliver (key_Q_down ?h lp) # rest"
  let ?tail = "[TranslateMessage (key_Q_down ?h lp), PostMessage ?h WM_CLOSE 0 0,
                TranslateMessage (close_message ?h), DefWindowProc ?h WM_CLOSE 0 0,
                UnregisterHotKey ?h HOTKEY_ID_F5, UnregisterHotKey ?h HOTKEY_ID_UP,
                PostQuitMessage 0]"
  from a startup [of os hInstance env nCmdShow ?inputs] obtain we where
    eq: "\<forall>fuel. wWinMain fuel os env hInstance nCmdShow (initial_world ?inputs) =
                  (case message_loop fuel os we of
                     None \<Rightarrow> None
                   | Some wz \<Rightarrow> Some (ExitCode 0, TRACE2 (Line [Txt ''Returning from main'']) wz))"
    and r: "ready ?h we" and p: "pending we = ?inputs"
    and created: "(CreateWindowExW main_window_args, os 2 (CreateWindowExW main_window_args))
                    \<in> set (calls we)"
    by blast
  from a have hs: "\<forall>m \<in> set pre. harmless m" by simp
  from harmless_run [OF hs r p, of os] obtain w2 where
    run: "\<forall>n. message_loop (length pre + n) os we = message_loop n os w2"
    and r2: "ready ?h w2"
    and p2: "pending w2 = Deliver (key_Q_down ?h lp) # rest"
    and g2: "reports we w2"
    by blast
  from a have s: "succeeds os" by simp
  from quit_run [OF s r2 p2] obtain w3 where
    q: "message_loop (Suc (Suc (Suc 0))) os w2 = Some w3" and closed: "\<not> window_open w3"
    and none: "hotkeys w3 = []" and p3: "pending w3 = rest"
    and pre3: "take (length (calls w2)) (calls w3) = calls w2"
    and new3: "map fst (new_calls w2 w3) = ?tail"
    by auto
  let ?w' = "TRACE2 (Line [Txt ''Returning from main'']) w3"
  have "message_loop (length pre + Suc (Suc (Suc 0))) os we =
        message_loop (Suc (Suc (Suc 0))) os w2"
    using run by (rule spec)
  with q have l: "message_loop (length pre + Suc (Suc (Suc 0))) os we = Some w3"
    by (simp only:)
  have "wWinMain (length pre + Suc (Suc (Suc 0))) os env hInstance nCmdShow (initial_world ?inputs) =
      (case message_loop (length pre + Suc (Suc (Suc 0))) os we of
         None \<Rightarrow> None
       | Some wz \<Rightarrow> Some (ExitCode 0, TRACE2 (Line [Txt ''Returning from main'']) wz))"
    using eq by (rule spec)
  then have exit: "wWinMain (length pre + Suc (Suc (Suc 0))) os env hInstance nCmdShow
                     (initial_world ?inputs) = Some (ExitCode 0, ?w')"
    by (simp only: l option.case prod.case)
  have fields: "calls ?w' = calls w3" "window_open ?w' = window_open w3"
    "hotkeys ?w' = hotkeys w3" "pending ?w' = pending w3"
    by (simp_all add: TRACE2_def TRACE_def)
  have c3: "calls w3 = calls w2 @ new_calls w2 w3"
    using pre3 unfolding new_calls_def by (metis append_take_drop_id)
  then have log: "map fst (calls ?w') = map fst (calls w2) @ ?tail"
    using new3 fields(1) by (metis map_append)
  have "set (calls we) \<subseteq> set (calls w2)"
    using reportsD(2) [OF g2] by (metis Un_upper1 set_append)
  with created c3 have "(CreateWindowExW main_window_args, os 2 (CreateWindowExW main_window_args))
      \<in> set (calls ?w')"
    using fields(1) by (metis UnCI set_append subsetD)
  then have made: "\<exists>r. (CreateWindowExW main_window_args, r) \<in> set (calls ?w') \<and> val r = ?h"
    by (auto simp: main_window_def main_window_args_def)
  from exit log made closed none p3 fields show "\<exists>fuel w' before.
           wWinMain fuel os env hInstance nCmdShow (initial_world ?inputs) = Some (ExitCode 0, w')
           \<and> map fst (calls w') = before @ ?tail
           \<and> (\<exists>r. (CreateWindowExW main_window_args, r) \<in> set (calls w') \<and> val r = ?h)
           \<and> \<not> window_open w' \<and> hotkeys w' = [] \<and> pending w' = rest"
    by (metis (no_types, lifting))
qed

theorem C6_quit_key_closes_and_exits_witness:
  "succeeds os_counting \<and> 1 = val (os_counting 0 GetModuleHandle) \<and> main_window os_counting = 3
   \<and> harmless \<lparr>hwnd = 3, message = WM_HOTKEY, wParam = 1, lParam = 0\<rparr>
   \<and> harmless \<lparr>hwnd = 3, message = WM_KEYDOWN, wParam = 65, lParam = 0\<rparr>
   \<and> (\<exists>fuel w' before.
         wWinMain fuel os_counting env_unset 1 1
           (initial_world
              [Deliver \<lparr>hwnd = 3, message = WM_HOTKEY, wParam = 1, lParam = 0\<rparr>,
               Deliver \<lparr>hwnd = 3, message = WM_KEYDOWN, wParam = 65, lParam = 0\<rparr>,
               Deliver (key_Q_down 3 0)]) = Some (ExitCode 0, w')
         \<and> map fst (calls w') =
             before @
             [TranslateMessage (key_Q_down 3 0), PostMessage 3 WM_CLOSE 0 0,
              TranslateMessage (close_message 3), DefWindowProc 3 WM_CLOSE 0 0,
              UnregisterHotKey 3 HOTKEY_ID_F5, UnregisterHotKey 3 HOTKEY_ID_UP,
              PostQuitMessage 0]
         \<and> \<not> window_open w' \<and> hotkeys w' = [] \<and> pending w' = [])"
proof -
  have s: "succeeds os_counting"
    by (simp add: succeeds_def os_counting_def)
  have m: "main_window os_counting = 3" "1 = val (os_counting 0 GetModuleHandle)"
    by (simp_all add: main_window_def os_counting_def)
  have h: "\<forall>m \<in> set [\<lparr>hwnd = 3, message = WM_HOTKEY, wParam = 1, lParam = 0\<rparr>,
                       \<lparr>hwnd = 3, message = WM_KEYDOWN, wParam = 65, lParam = 0\<rparr>]. harmless m"
    by (simp add: harmless_def WM_HOTKEY_def WM_KEYDOWN_def WM_CREATE_def WM_DESTROY_def
          WM_CLOSE_def WM_QUIT_def KEY_Q_def)
  have "\<exists>fuel w' before.
         wWinMain fuel os_counting env_unset 1 1
           (initial_world
              (map Deliver [\<lparr>hwnd = 3, message = WM_HOTKEY, wParam = 1, lParam = 0\<rparr>,
                            \<lparr>hwnd = 3, message = WM_KEYDOWN, wParam = 65, lParam = 0\<rparr>]
               @ Deliver (key_Q_down (main_window os_counting) 0) # [])) = Some (ExitCode 0, w')
         \<and> map fst (calls w') =
             before @
             [TranslateMessage (key_Q_down (main_window os_counting) 0),
              PostMessage (main_window os_counting) WM_CLOSE 0 0,
              TranslateMessage (close_message (main_window os_counting)),
              DefWindowProc (main_window os_counting) WM_CLOSE 0 0,
              UnregisterHotKey (main_window os_counting) HOTKEY_ID_F5,
              UnregisterHotKey (main_window os_counting) HOTKEY_ID_UP,
              PostQuitMessage 0]
         \<and> (\<exists>r. (CreateWindowExW main_window_args, r) \<in> set (calls w')
                  \<and> val r = main_window os_counting)
         \<and> \<not> window_open w' \<and> hotkeys w' = [] \<and> pending w' = []"
  proof -
    have p: "succeeds os_counting \<and> 1 = val (os_counting 0 GetModuleHandle)
             \<and> (\<forall>m \<in> set [\<lparr>hwnd = 3, message = WM_HOTKEY, wParam = 1, lParam = 0\<rparr>,
                             \<lparr>hwnd = 3, message = WM_KEYDOWN, wParam = 65, lParam = 0\<rparr>].
                    harmless m)"
      using s m(2) h by (intro conjI)
    show ?thesis
      using C6_quit_key_closes_and_exits
            [where os = os_counting and hInstance = 1 and env = env_unset and nCmdShow = 1
               and lp = 0 and rest = "[]"
               and pre = "[\<lparr>hwnd = 3, message = WM_HOTKEY, wParam = 1, lParam = 0\<rparr>,
                           \<lparr>hwnd = 3, message = WM_KEYDOWN, wParam = 65, lParam = 0\<rparr>]",
             THEN conjunct2, THEN conjunct2, THEN mp, OF p] .
  qed
  then have "\<exists>fuel w' before.
         wWinMain fuel os_counting env_unset 1 1
           (initial_world
              [Deliver \<lparr>hwnd = 3, message = WM_HOTKEY, wParam = 1, lParam = 0\<rparr>,
               Deliver \<lparr>hwnd = 3, message = WM_KEYDOWN, wParam = 65, lParam = 0\<rparr>,
               Deliver (key_Q_down 3 0)]) = Some (ExitCode 0, w')
         \<and> map fst (calls w') =
             before @
             [TranslateMessage (key_Q_down 3 0), PostMessage 3 WM_CLOSE 0 0,
              TranslateMessage (close_message 3), DefWindowProc 3 WM_CLOSE 0 0,
              UnregisterHotKey 3 HOTKEY_ID_F5, UnregisterHotKey 3 HOTKEY_ID_UP,
              PostQuitMessage 0]
         \<and> \<not> window_open w' \<and> hotkeys w' = [] \<and> pending w' = []"
    unfolding m(1) by (simp only: list.map append.simps) blast
  moreover have "harmless \<lparr>hwnd = 3, message = WM_HOTKEY, wParam = 1, lParam = 0\<rparr>"
    "harmless \<lparr>hwnd = 3, message = WM_KEYDOWN, wParam = 65, lParam = 0\<rparr>"
    using h by simp_all
  ultimately show ?thesis using s m by (simp only: simp_thms)
qed

end
